theory Spec2Isabelle
  imports Main
begin

section \<open>Python values that cross the tool-calling boundary\<close>

text \<open>
  The three scripts under \<^verbatim>\<open>tool-calling/\<close> exchange JSON text with a chat-completion
  endpoint, with OpenWeatherMap and with yfinance. Python strings are held as
  \<^typ>\<open>string\<close>, read as UTF-8 bytes. A Python float is held as an exact decimal
  \<open>(-1)^s * m * 10^e\<close> (the binary rounding of IEEE doubles is not modelled), next to
  the two infinities and NaN. A value decoded from JSON is a \<open>json\<close>; a dict keeps
  its insertion order, so it is an association list.
\<close>

datatype pyfloat = Fin bool nat int | Inf bool | NaN

datatype pynum = PyInt int | PyFloat pyfloat

datatype json =
    JNull
  | JBool bool
  | JNum pynum
  | JStr string
  | JArr "json list"
  | JObj "(string \<times> json) list"

text \<open>The exceptions the scripts can meet; those whose text is interpolated carry it.\<close>

datatype exn =
    JSONDecodeError
  | TypeError
  | KeyError
  | IndexError
  | EnvironmentError string
  | RequestException string
  | OtherException string

subsection \<open>Printing numbers\<close>

definition digit_char :: "nat \<Rightarrow> char" where
  "digit_char d = ''0123456789'' ! (d mod 10)"

definition hex_char :: "nat \<Rightarrow> char" where
  "hex_char d = ''0123456789abcdef'' ! (d mod 16)"

fun show_nat :: "nat \<Rightarrow> string" where
  "show_nat n = (if n < 10 then [digit_char n] else show_nat (n div 10) @ [digit_char n])"

definition show_int :: "int \<Rightarrow> string" where
  "show_int i = (if i < 0 then CHR ''-'' # show_nat (nat (- i)) else show_nat (nat i))"

text \<open>Dropping the trailing zeros of a mantissa, as the shortest \<open>repr\<close> does.\<close>

fun strip_zeros :: "nat \<Rightarrow> int \<Rightarrow> nat \<times> int" where
  "strip_zeros m e =
     (if m = 0 then (0, 0)
      else if m mod 10 = 0 then strip_zeros (m div 10) (e + 1)
      else (m, e))"

text \<open>
  \<open>float.__repr__\<close> on a finite float: fixed notation while the decimal exponent is in
  \<open>[-4, 16)\<close>, scientific notation with at least two exponent digits otherwise.
\<close>

definition fixed_repr :: "string \<Rightarrow> int \<Rightarrow> string" where
  "fixed_repr ds p =
     (if p \<le> 0 then ''0.'' @ replicate (nat (- p)) CHR ''0'' @ ds
      else if p < int (length ds) then take (nat p) ds @ ''.'' @ drop (nat p) ds
      else ds @ replicate (nat p - length ds) CHR ''0'' @ ''.0'')"

definition sci_repr :: "string \<Rightarrow> int \<Rightarrow> string" where
  "sci_repr ds x =
     take 1 ds @ (if length ds > 1 then ''.'' @ drop 1 ds else [])
     @ ''e'' @ (if x < 0 then ''-'' else ''+'')
     @ (if \<bar>x\<bar> < 10 then ''0'' else []) @ show_nat (nat \<bar>x\<bar>)"

definition finite_repr :: "bool \<Rightarrow> nat \<Rightarrow> int \<Rightarrow> string" where
  "finite_repr s m e =
     (if s then ''-'' else []) @
     (case strip_zeros m e of (m', e') \<Rightarrow>
        if m' = 0 then ''0.0''
        else let ds = show_nat m'; p = int (length ds) + e'
             in if - 4 \<le> p - 1 \<and> p - 1 < 16 then fixed_repr ds p else sci_repr ds (p - 1))"

fun float_repr :: "pyfloat \<Rightarrow> string" where
  "float_repr (Fin s m e) = finite_repr s m e"
| "float_repr (Inf s) = (if s then ''-inf'' else ''inf'')"
| "float_repr NaN = ''nan''"

text \<open>\<open>round(x, 4)\<close>, ties to even, on the decimal reading of a float.\<close>

fun round4 :: "pyfloat \<Rightarrow> pyfloat" where
  "round4 (Fin s m e) =
     (if - 4 \<le> e then Fin s m e
      else let k = 10 ^ nat (- e - 4); q = m div k; r = m mod k
           in Fin s (if 2 * r > k \<or> (2 * r = k \<and> odd q) then q + 1 else q) (- 4))"
| "round4 f = f"

subsection \<open>json.dumps with its default options\<close>

fun intercalate :: "'a list \<Rightarrow> 'a list list \<Rightarrow> 'a list" where
  "intercalate sep [] = []"
| "intercalate sep [x] = x"
| "intercalate sep (x # y # ys) = x @ sep @ intercalate sep (y # ys)"

text \<open>
  Code points of a UTF-8 byte sequence: \<open>k\<close> continuation bytes are still expected and
  \<open>acc\<close> holds the bits read so far.
\<close>

fun utf8_cps :: "nat \<Rightarrow> nat \<Rightarrow> nat list \<Rightarrow> nat list" where
  "utf8_cps k acc [] = []"
| "utf8_cps k acc (b # bs) =
     (if k = 0 then
        (if b < 0x80 then b # utf8_cps 0 0 bs
         else if b < 0xE0 then utf8_cps 1 (b mod 32) bs
         else if b < 0xF0 then utf8_cps 2 (b mod 16) bs
         else utf8_cps 3 (b mod 8) bs)
      else if k = 1 then (acc * 64 + b mod 64) # utf8_cps 0 0 bs
      else utf8_cps (k - 1) (acc * 64 + b mod 64) bs)"

definition code_points :: "string \<Rightarrow> nat list" where
  "code_points s = utf8_cps 0 0 (map of_char s)"

definition hex4 :: "nat \<Rightarrow> string" where
  "hex4 n = [hex_char (n div 4096), hex_char (n div 256), hex_char (n div 16), hex_char n]"

definition u_escape :: "nat \<Rightarrow> string" where
  "u_escape n = [CHR 0x5C, CHR ''u''] @ hex4 n"

text \<open>
  \<open>ensure_ascii=True\<close>: everything outside \<open>' '..'~'\<close> is escaped, code points beyond
  the basic plane as a surrogate pair.
\<close>

definition escape_cp :: "nat \<Rightarrow> string" where
  "escape_cp c =
     (if c = 0x22 then [CHR 0x5C, CHR 0x22]
      else if c = 0x5C then [CHR 0x5C, CHR 0x5C]
      else if c = 0x0A then [CHR 0x5C, CHR ''n'']
      else if c = 0x0D then [CHR 0x5C, CHR ''r'']
      else if c = 0x09 then [CHR 0x5C, CHR ''t'']
      else if c = 0x08 then [CHR 0x5C, CHR ''b'']
      else if c = 0x0C then [CHR 0x5C, CHR ''f'']
      else if 0x20 \<le> c \<and> c \<le> 0x7E then [char_of c]
      else if c < 0x10000 then u_escape c
      else u_escape (0xD800 + (c - 0x10000) div 1024 mod 1024)
           @ u_escape (0xDC00 + (c - 0x10000) mod 1024))"

definition dump_string :: "string \<Rightarrow> string" where
  "dump_string s = [CHR 0x22] @ concat (map escape_cp (code_points s)) @ [CHR 0x22]"

fun dump_float :: "pyfloat \<Rightarrow> string" where
  "dump_float (Fin s m e) = finite_repr s m e"
| "dump_float (Inf s) = (if s then ''-Infinity'' else ''Infinity'')"
| "dump_float NaN = ''NaN''"

fun dump_num :: "pynum \<Rightarrow> string" where
  "dump_num (PyInt i) = show_int i"
| "dump_num (PyFloat f) = dump_float f"

fun json_dumps :: "json \<Rightarrow> string" where
  "json_dumps JNull = ''null''"
| "json_dumps (JBool b) = (if b then ''true'' else ''false'')"
| "json_dumps (JNum n) = dump_num n"
| "json_dumps (JStr s) = dump_string s"
| "json_dumps (JArr vs) = ''['' @ intercalate '', '' (map json_dumps vs) @ '']''"
| "json_dumps (JObj kvs) =
     ''{'' @ intercalate '', '' (map (\<lambda>kv. dump_string (fst kv) @ '': '' @ json_dumps (snd kv)) kvs)
     @ ''}''"

subsection \<open>json.loads\<close>

definition is_ws :: "char \<Rightarrow> bool" where
  "is_ws c = (c = CHR '' '' \<or> c = CHR 0x09 \<or> c = CHR 0x0A \<or> c = CHR 0x0D)"

definition skip_ws :: "string \<Rightarrow> string" where
  "skip_ws = dropWhile is_ws"

definition is_digit :: "char \<Rightarrow> bool" where
  "is_digit c = (48 \<le> (of_char c :: nat) \<and> (of_char c :: nat) \<le> 57)"

definition digit_val :: "char \<Rightarrow> nat" where
  "digit_val c = of_char c - 48"

definition read_nat :: "string \<Rightarrow> nat" where
  "read_nat = foldl (\<lambda>a c. 10 * a + digit_val c) 0"

definition starts :: "string \<Rightarrow> string \<Rightarrow> bool" where
  "starts p s = (take (length p) s = p)"

text \<open>
  The number pattern of the decoder,
  \<^verbatim>\<open>(-?(?:0|[1-9]\d*))(\.\d+)?([eE][-+]?\d+)?\<close>: the fraction and the exponent match
  only when at least one digit follows.
\<close>

definition scan_int :: "string \<Rightarrow> (string \<times> string) option" where
  "scan_int s =
     (if starts ''0'' s then Some (''0'', tl s)
      else if s \<noteq> [] \<and> is_digit (hd s) then Some (takeWhile is_digit s, dropWhile is_digit s)
      else None)"

definition scan_frac :: "string \<Rightarrow> string \<times> string" where
  "scan_frac s =
     (if starts ''.'' s \<and> tl s \<noteq> [] \<and> is_digit (hd (tl s))
      then (takeWhile is_digit (tl s), dropWhile is_digit (tl s))
      else ([], s))"

definition scan_exp :: "string \<Rightarrow> int option \<times> string" where
  "scan_exp s =
     (if starts ''e'' s \<or> starts ''E'' s then
        (let r = tl s;
             neg = starts ''-'' r;
             d = (if neg \<or> starts ''+'' r then tl r else r)
         in if d \<noteq> [] \<and> is_digit (hd d)
            then (Some ((if neg then - 1 else 1) * int (read_nat (takeWhile is_digit d))),
                  dropWhile is_digit d)
            else (None, s))
      else (None, s))"

definition scan_number :: "string \<Rightarrow> (pynum \<times> string) option" where
  "scan_number s =
     (let neg = starts ''-'' s; s1 = (if neg then tl s else s)
      in case scan_int s1 of
           None \<Rightarrow> None
         | Some (ds, s2) \<Rightarrow>
             (case scan_frac s2 of (fs, s3) \<Rightarrow>
              case scan_exp s3 of (ex, s4) \<Rightarrow>
                if fs = [] \<and> ex = None
                then Some (PyInt ((if neg then - 1 else 1) * int (read_nat ds)), s2)
                else (case strip_zeros (read_nat (ds @ fs))
                             ((case ex of None \<Rightarrow> 0 | Some x \<Rightarrow> x) - int (length fs)) of
                        (m, e) \<Rightarrow> Some (PyFloat (Fin neg m e), s4))))"

definition hex_val :: "char \<Rightarrow> nat option" where
  "hex_val c =
     (let n = (of_char c :: nat)
      in if 48 \<le> n \<and> n \<le> 57 then Some (n - 48)
         else if 97 \<le> n \<and> n \<le> 102 then Some (n - 87)
         else if 65 \<le> n \<and> n \<le> 70 then Some (n - 55)
         else None)"

definition read_hex4 :: "char \<Rightarrow> char \<Rightarrow> char \<Rightarrow> char \<Rightarrow> nat option" where
  "read_hex4 a b c d =
     (case (hex_val a, hex_val b, hex_val c, hex_val d) of
        (Some w, Some x, Some y, Some z) \<Rightarrow> Some (((w * 16 + x) * 16 + y) * 16 + z)
      | _ \<Rightarrow> None)"

definition utf8_encode :: "nat \<Rightarrow> string" where
  "utf8_encode c =
     (if c < 0x80 then [char_of c]
      else if c < 0x800 then [char_of (0xC0 + c div 64), char_of (0x80 + c mod 64)]
      else if c < 0x10000 then
        [char_of (0xE0 + c div 4096), char_of (0x80 + c div 64 mod 64), char_of (0x80 + c mod 64)]
      else
        [char_of (0xF0 + c div 262144), char_of (0x80 + c div 4096 mod 64),
         char_of (0x80 + c div 64 mod 64), char_of (0x80 + c mod 64)])"

definition simple_escape :: "char \<Rightarrow> char option" where
  "simple_escape e =
     (if e = CHR 0x22 \<or> e = CHR 0x5C \<or> e = CHR ''/'' then Some e
      else if e = CHR ''b'' then Some (CHR 0x08)
      else if e = CHR ''f'' then Some (CHR 0x0C)
      else if e = CHR ''n'' then Some (CHR 0x0A)
      else if e = CHR ''r'' then Some (CHR 0x0D)
      else if e = CHR ''t'' then Some (CHR 0x09)
      else None)"

definition is_high :: "nat \<Rightarrow> bool" where
  "is_high u = (0xD800 \<le> u \<and> u \<le> 0xDBFF)"

definition is_low :: "nat \<Rightarrow> bool" where
  "is_low u = (0xDC00 \<le> u \<and> u \<le> 0xDFFF)"

definition flush :: "nat option \<Rightarrow> string \<Rightarrow> string" where
  "flush hi acc = acc @ (case hi of None \<Rightarrow> [] | Some h \<Rightarrow> utf8_encode h)"

text \<open>
  The body of a string after its opening quote, in strict mode (a raw control character
  is an error). \<open>hi\<close> holds a high surrogate read from a \<^verbatim>\<open>\u\<close> escape until the
  next item shows whether a low surrogate follows it.
\<close>

fun scan_string :: "nat option \<Rightarrow> string \<Rightarrow> string \<Rightarrow> (string \<times> string) option" where
  "scan_string hi acc [] = None"
| "scan_string hi acc (c # r) =
     (if c = CHR 0x22 then Some (flush hi acc, r)
      else if c = CHR 0x5C then
        (case r of
           [] \<Rightarrow> None
         | e # r1 \<Rightarrow>
             if e = CHR ''u'' then
               (case r1 of
                  a # b # c' # d # r2 \<Rightarrow>
                    (case read_hex4 a b c' d of
                       None \<Rightarrow> None
                     | Some u \<Rightarrow>
                         (case hi of
                            Some h \<Rightarrow>
                              if is_low u
                              then scan_string None
                                     (acc @ utf8_encode (0x10000 + (h - 0xD800) * 1024 + (u - 0xDC00))) r2
                              else if is_high u then scan_string (Some u) (acc @ utf8_encode h) r2
                              else scan_string None (acc @ utf8_encode h @ utf8_encode u) r2
                          | None \<Rightarrow>
                              if is_high u then scan_string (Some u) acc r2
                              else scan_string None (acc @ utf8_encode u) r2))
                | _ \<Rightarrow> None)
             else
               (case simple_escape e of
                  None \<Rightarrow> None
                | Some x \<Rightarrow> scan_string None (flush hi acc @ [x]) r1))
      else if (of_char c :: nat) < 0x20 then None
      else scan_string None (flush hi acc @ [c]) r)"

fun dict_set :: "(string \<times> json) list \<Rightarrow> string \<Rightarrow> json \<Rightarrow> (string \<times> json) list" where
  "dict_set [] k v = [(k, v)]"
| "dict_set (p # ps) k v = (if fst p = k then (k, v) # ps else p # dict_set ps k v)"

text \<open>
  The recursive descent of the decoder. The first argument bounds the depth of the
  recursion; \<open>json_loads\<close> starts it with more than the text can use.
\<close>

fun parse_value :: "nat \<Rightarrow> string \<Rightarrow> (json \<times> string) option"
and parse_elems :: "nat \<Rightarrow> json list \<Rightarrow> string \<Rightarrow> (json \<times> string) option"
and parse_members :: "nat \<Rightarrow> (string \<times> json) list \<Rightarrow> string \<Rightarrow> (json \<times> string) option"
where
  "parse_value 0 s = None"
| "parse_value (Suc n) s =
     (if starts [CHR 0x22] s then
        (case scan_string None [] (tl s) of
           None \<Rightarrow> None
         | Some (str, r) \<Rightarrow> Some (JStr str, r))
      else if starts ''{'' s then
        (if starts ''}'' (skip_ws (tl s)) then Some (JObj [], tl (skip_ws (tl s)))
         else parse_members n [] (skip_ws (tl s)))
      else if starts ''['' s then
        (if starts '']'' (skip_ws (tl s)) then Some (JArr [], tl (skip_ws (tl s)))
         else parse_elems n [] (skip_ws (tl s)))
      else if starts ''null'' s then Some (JNull, drop 4 s)
      else if starts ''true'' s then Some (JBool True, drop 4 s)
      else if starts ''false'' s then Some (JBool False, drop 5 s)
      else
        (case scan_number s of
           Some (x, r) \<Rightarrow> Some (JNum x, r)
         | None \<Rightarrow>
             if starts ''NaN'' s then Some (JNum (PyFloat NaN), drop 3 s)
             else if starts ''Infinity'' s then Some (JNum (PyFloat (Inf False)), drop 8 s)
             else if starts ''-Infinity'' s then Some (JNum (PyFloat (Inf True)), drop 9 s)
             else None))"
| "parse_elems 0 acc s = None"
| "parse_elems (Suc n) acc s =
     (case parse_value n s of
        None \<Rightarrow> None
      | Some (v, r) \<Rightarrow>
          if starts '']'' (skip_ws r) then Some (JArr (acc @ [v]), tl (skip_ws r))
          else if starts '','' (skip_ws r) then parse_elems n (acc @ [v]) (skip_ws (tl (skip_ws r)))
          else None)"
| "parse_members 0 acc s = None"
| "parse_members (Suc n) acc s =
     (if \<not> starts [CHR 0x22] s then None
      else
        (case scan_string None [] (tl s) of
           None \<Rightarrow> None
         | Some (k, r) \<Rightarrow>
             if \<not> starts '':'' (skip_ws r) then None
             else
               (case parse_value n (skip_ws (tl (skip_ws r))) of
                  None \<Rightarrow> None
                | Some (v, r2) \<Rightarrow>
                    if starts ''}'' (skip_ws r2) then Some (JObj (dict_set acc k v), tl (skip_ws r2))
                    else if starts '','' (skip_ws r2)
                    then parse_members n (dict_set acc k v) (skip_ws (tl (skip_ws r2)))
                    else None)))"

definition json_loads :: "string \<Rightarrow> exn + json" where
  "json_loads s =
     (case parse_value (Suc (length s)) (skip_ws s) of
        None \<Rightarrow> Inl JSONDecodeError
      | Some (v, r) \<Rightarrow> if skip_ws r = [] then Inr v else Inl JSONDecodeError)"

section \<open>Python operations the scripts apply to decoded values\<close>

fun and_then :: "exn + 'a \<Rightarrow> ('a \<Rightarrow> exn + 'b) \<Rightarrow> exn + 'b" where
  "and_then (Inl e) f = Inl e"
| "and_then (Inr x) f = f x"

text \<open>Truth value of a decoded value, as \<^verbatim>\<open>if not x\<close> tests it.\<close>

fun py_truthy :: "json \<Rightarrow> bool" where
  "py_truthy JNull = False"
| "py_truthy (JBool b) = b"
| "py_truthy (JNum (PyInt i)) = (i \<noteq> 0)"
| "py_truthy (JNum (PyFloat (Fin s m e))) = (m \<noteq> 0)"
| "py_truthy (JNum (PyFloat f)) = True"
| "py_truthy (JStr s) = (s \<noteq> [])"
| "py_truthy (JArr vs) = (vs \<noteq> [])"
| "py_truthy (JObj kvs) = (kvs \<noteq> [])"

text \<open>
  \<open>repr\<close> and \<open>str\<close>, which an f-string applies to what it interpolates. In the
  \<open>repr\<close> of a string, bytes beyond ASCII are taken to be printable and left as they
  are.
\<close>

definition repr_char :: "char \<Rightarrow> char \<Rightarrow> string" where
  "repr_char q c =
     (if c = CHR 0x5C then [CHR 0x5C, CHR 0x5C]
      else if c = q then [CHR 0x5C, q]
      else if c = CHR 0x09 then [CHR 0x5C, CHR ''t'']
      else if c = CHR 0x0A then [CHR 0x5C, CHR ''n'']
      else if c = CHR 0x0D then [CHR 0x5C, CHR ''r'']
      else if (of_char c :: nat) < 0x20 \<or> c = CHR 0x7F
      then [CHR 0x5C, CHR ''x'', hex_char (of_char c div 16), hex_char (of_char c)]
      else [c])"

definition str_repr :: "string \<Rightarrow> string" where
  "str_repr s =
     (let q = (if CHR 0x27 \<in> set s \<and> CHR 0x22 \<notin> set s then CHR 0x22 else CHR 0x27)
      in [q] @ concat (map (repr_char q) s) @ [q])"

fun py_repr :: "json \<Rightarrow> string" where
  "py_repr JNull = ''None''"
| "py_repr (JBool b) = (if b then ''True'' else ''False'')"
| "py_repr (JNum (PyInt i)) = show_int i"
| "py_repr (JNum (PyFloat f)) = float_repr f"
| "py_repr (JStr s) = str_repr s"
| "py_repr (JArr vs) = ''['' @ intercalate '', '' (map py_repr vs) @ '']''"
| "py_repr (JObj kvs) =
     ''{'' @ intercalate '', '' (map (\<lambda>kv. str_repr (fst kv) @ '': '' @ py_repr (snd kv)) kvs) @ ''}''"

fun py_str :: "json \<Rightarrow> string" where
  "py_str (JStr s) = s"
| "py_str v = py_repr v"

text \<open>\<^verbatim>\<open>obj[key]\<close> with a string key, and \<^verbatim>\<open>obj[0]\<close>.\<close>

fun getitem :: "json \<Rightarrow> string \<Rightarrow> exn + json" where
  "getitem (JObj kvs) k = (case map_of kvs k of None \<Rightarrow> Inl KeyError | Some v \<Rightarrow> Inr v)"
| "getitem v k = Inl TypeError"

definition first_char :: "string \<Rightarrow> string" where
  "first_char s =
     take (let b = (of_char (hd s) :: nat)
           in if b < 0x80 then 1 else if b < 0xE0 then 2 else if b < 0xF0 then 3 else 4) s"

fun getitem0 :: "json \<Rightarrow> exn + json" where
  "getitem0 (JArr vs) = (case vs of [] \<Rightarrow> Inl IndexError | v # _ \<Rightarrow> Inr v)"
| "getitem0 (JStr s) = (if s = [] then Inl IndexError else Inr (JStr (first_char s)))"
| "getitem0 (JObj kvs) = Inl KeyError"
| "getitem0 v = Inl TypeError"

text \<open>The entries of a dict display are evaluated in order; the first exception wins.\<close>

fun collect :: "(string \<times> (exn + json)) list \<Rightarrow> exn + (string \<times> json) list" where
  "collect [] = Inr []"
| "collect ((k, Inl e) # rest) = Inl e"
| "collect ((k, Inr v) # rest) =
     (case collect rest of Inl e \<Rightarrow> Inl e | Inr kvs \<Rightarrow> Inr ((k, v) # kvs))"

text \<open>
  \<^verbatim>\<open>f(**args)\<close> for a function with the single parameter \<open>p\<close>: \<open>args\<close> must be a
  mapping whose only key is \<open>p\<close>. The value is not checked against the annotation.
\<close>

fun call_with_kwargs :: "string \<Rightarrow> json \<Rightarrow> exn + json" where
  "call_with_kwargs p (JObj kvs) =
     (case kvs of [(k, v)] \<Rightarrow> if k = p then Inr v else Inl TypeError | _ \<Rightarrow> Inl TypeError)"
| "call_with_kwargs p v = Inl TypeError"

section \<open>The world outside the scripts\<close>

record http_response =
  status_code :: nat
  reason :: string
  url :: string
  resp_text :: string

type_synonym http_get = "string \<times> (string \<times> json) list"

record history_row =
  close :: pyfloat
  isoformat :: string

record tool_call =
  call_id :: string
  call_type :: string
  fn_name :: string
  fn_arguments :: string

record assistant_message =
  content :: "string option"
  tool_calls :: "tool_call list option"

datatype message =
    SystemMessage string
  | UserMessage string
  | AssistantMessage "string option" "tool_call list"
  | ToolMessage (tool_call_id: string) (tool_name: "string option") (tool_content: string)

record chat_request =
  model :: string
  messages :: "message list"
  temperature :: pynum
  max_tokens :: nat
  tools :: "json option"
  tool_choice :: "string option"

text \<open>
  Everything the scripts reach through a library: \<open>os.getenv\<close>;
  \<open>client.chat.completions.create(...).choices[0].message\<close> or the exception it ends in;
  \<open>requests.get\<close>; \<open>yf.Ticker(s).history(period="1d")\<close>, with \<open>str(exc)\<close> when it
  raises; and the \<open>currency\<close> entry of \<open>ticker.fast_info\<close>, if it has one.
\<close>

record world =
  getenv :: "string \<Rightarrow> string option"
  chat_create :: "chat_request \<Rightarrow> exn + assistant_message"
  requests_get :: "http_get \<Rightarrow> exn + http_response"
  yf_history :: "json \<Rightarrow> string + history_row list"
  fast_info_currency :: "json \<Rightarrow> exn + json option"

text \<open>\<open>Response.raise_for_status\<close> raises an \<open>HTTPError\<close> for a 4xx or 5xx status.\<close>

definition raise_for_status :: "http_response \<Rightarrow> exn + unit" where
  "raise_for_status r =
     (if 400 \<le> status_code r \<and> status_code r < 500
      then Inl (RequestException
             (show_nat (status_code r) @ '' Client Error: '' @ reason r @ '' for url: '' @ url r))
      else if 500 \<le> status_code r \<and> status_code r < 600
      then Inl (RequestException
             (show_nat (status_code r) @ '' Server Error: '' @ reason r @ '' for url: '' @ url r))
      else Inr ())"

definition response_json :: "http_response \<Rightarrow> exn + json" where
  "response_json r = json_loads (resp_text r)"

section \<open>The tool executors\<close>

definition require_env :: "world \<Rightarrow> string \<Rightarrow> exn + string" where
  "require_env w var_name =
     (case getenv w var_name of
        None \<Rightarrow> Inl (EnvironmentError (''Missing required environment variable: '' @ var_name
                       @ ''. Create a .env file or export it in your shell.''))
      | Some v \<Rightarrow>
          if v = [] then Inl (EnvironmentError (''Missing required environment variable: '' @ var_name
                       @ ''. Create a .env file or export it in your shell.''))
          else Inr v)"

definition openweather_url :: string where
  "openweather_url = ''https://api.openweathermap.org/data/2.5/weather''"

text \<open>The dict \<open>weather\<close> that both weather executors build from the decoded payload.\<close>

definition weather_dict :: "json \<Rightarrow> json \<Rightarrow> exn + json" where
  "weather_dict location payload =
     (case collect
        [(''location'', Inr location),
         (''temperature_c'', and_then (getitem payload ''main'') (\<lambda>m. getitem m ''temp'')),
         (''feels_like_c'', and_then (getitem payload ''main'') (\<lambda>m. getitem m ''feels_like'')),
         (''humidity_pct'', and_then (getitem payload ''main'') (\<lambda>m. getitem m ''humidity'')),
         (''pressure_hpa'', and_then (getitem payload ''main'') (\<lambda>m. getitem m ''pressure'')),
         (''wind_speed_mps'', and_then (getitem payload ''wind'') (\<lambda>m. getitem m ''speed'')),
         (''description'',
            and_then (getitem payload ''weather'')
              (\<lambda>l. and_then (getitem0 l) (\<lambda>x. getitem x ''description''))),
         (''icon'',
            and_then (getitem payload ''weather'')
              (\<lambda>l. and_then (getitem0 l) (\<lambda>x. getitem x ''icon'')))]
      of Inl e \<Rightarrow> Inl e | Inr kvs \<Rightarrow> Inr (JObj kvs))"

text \<open>
  The part of \<open>get_current_weather\<close> that the two weather scripts share word for word,
  from \<open>params = ...\<close> on: the request and \<open>raise_for_status\<close> sit inside the
  \<^verbatim>\<open>try\<close>, \<open>response.json()\<close> and the subscripts after it. The second component lists
  the outbound requests made.
\<close>

definition fetch_weather :: "world \<Rightarrow> json \<Rightarrow> string \<Rightarrow> (exn + string) \<times> http_get list" where
  "fetch_weather w location api_key =
     (let params = [(''q'', location), (''units'', JStr ''metric''), (''appid'', JStr api_key)]
      in (case and_then (requests_get w (openweather_url, params))
                 (\<lambda>response. and_then (raise_for_status response) (\<lambda>_. Inr response)) of
            Inl (RequestException exc) \<Rightarrow>
              Inr (json_dumps (JObj [(''error'', JStr (''OpenWeatherMap request failed: '' @ exc))]))
          | Inl e \<Rightarrow> Inl e
          | Inr response \<Rightarrow>
              and_then (response_json response)
                (\<lambda>payload. and_then (weather_dict location payload)
                   (\<lambda>weather. Inr (json_dumps weather))),
          [(openweather_url, params)]))"

text \<open>\<open>get_current_weather\<close> of \<^verbatim>\<open>groq_weather_function_call.py\<close>.\<close>

definition groq_get_current_weather :: "world \<Rightarrow> json \<Rightarrow> (exn + string) \<times> http_get list" where
  "groq_get_current_weather w location =
     (case require_env w ''OPENWEATHER_API_KEY'' of
        Inl e \<Rightarrow> (Inl e, [])
      | Inr api_key \<Rightarrow> fetch_weather w location api_key)"

text \<open>\<open>get_current_weather\<close> of \<^verbatim>\<open>fastmcp_groq_weather_server.py\<close>.\<close>

definition demo_payload :: "json \<Rightarrow> json" where
  "demo_payload location =
     JObj [(''location'', location),
           (''temperature_c'', JNum (PyFloat (Fin False 24 0))),
           (''feels_like_c'', JNum (PyFloat (Fin False 252 (- 1)))),
           (''description'', JStr ''partly cloudy (demo)''),
           (''note'', JStr ''Set OPENWEATHER_API_KEY for real data.'')]"

definition mcp_get_current_weather :: "world \<Rightarrow> json \<Rightarrow> (exn + string) \<times> http_get list" where
  "mcp_get_current_weather w location =
     (case getenv w ''OPENWEATHER_API_KEY'' of
        None \<Rightarrow> (Inr (json_dumps (demo_payload location)), [])
      | Some api_key \<Rightarrow>
          if api_key = [] then (Inr (json_dumps (demo_payload location)), [])
          else fetch_weather w location api_key)"

text \<open>\<open>get_current_stock_price\<close> of \<^verbatim>\<open>openai_stock_function_call.py\<close>.\<close>

definition get_current_stock_price :: "world \<Rightarrow> json \<Rightarrow> exn + string" where
  "get_current_stock_price w stock_symbol =
     (if \<not> py_truthy stock_symbol
      then Inr (json_dumps (JObj [(''error'', JStr ''Missing stock_symbol argument.'')]))
      else
        (case yf_history w stock_symbol of
           Inl exc \<Rightarrow>
             Inr (json_dumps (JObj [(''error'',
                    JStr (''Unable to fetch data for '' @ py_str stock_symbol @ '': '' @ exc))]))
         | Inr history \<Rightarrow>
             if history = []
             then Inr (json_dumps (JObj [(''error'',
                         JStr (''No pricing data returned for '' @ py_str stock_symbol @ ''.''))]))
             else
               (let latest_row = last history
                in and_then (fast_info_currency w stock_symbol)
                     (\<lambda>cur. Inr (json_dumps (JObj
                        [(''stock_symbol'', stock_symbol),
                         (''close_price'', JNum (PyFloat (round4 (close latest_row)))),
                         (''currency'', (case cur of None \<Rightarrow> JStr ''UNKNOWN'' | Some c \<Rightarrow> c)),
                         (''timestamp'', JStr (isoformat latest_row))]))))))"

section \<open>The orchestrators\<close>

text \<open>
  What a run leaves behind: the chat-completion requests sent, in order; every entry
  into a tool executor with the request that caused it and what the executor did; the
  outbound HTTP requests of the executors; what was printed, one entry per \<open>print\<close>
  call; and the value returned or the exception that ended the run.
\<close>

datatype pyobj = OStr string | ONone | OMessage assistant_message | OJson json

record 'r run =
  transport :: "chat_request list"
  executed :: "(tool_call \<times> (exn + string)) list"
  fetched :: "http_get list"
  printed :: "pyobj list list"
  outcome :: "exn + 'r"

record loop_state =
  tool_messages :: "message list"
  execs :: "(tool_call \<times> (exn + string)) list"
  gets :: "http_get list"
  prints :: "pyobj list list"

definition print_content :: "string option \<Rightarrow> pyobj list" where
  "print_content c = (case c of None \<Rightarrow> [ONone] | Some s \<Rightarrow> [OStr s])"

text \<open>\<open>x or []\<close> on the \<open>tool_calls\<close> attribute.\<close>

definition or_empty :: "tool_call list option \<Rightarrow> tool_call list" where
  "or_empty tc = (case tc of None \<Rightarrow> [] | Some cs \<Rightarrow> cs)"

text \<open>The names a tool declaration list declares.\<close>

fun declared_names :: "json \<Rightarrow> string list" where
  "declared_names (JArr ds) =
     concat (map (\<lambda>d. case and_then (getitem d ''function'') (\<lambda>f. getitem f ''name'') of
                         Inr (JStr n) \<Rightarrow> [n] | _ \<Rightarrow> []) ds)"
| "declared_names v = []"

subsection \<open>\<^verbatim>\<open>groq_weather_function_call.py\<close>\<close>

definition groq_tools :: json where
  "groq_tools =
     JArr [JObj
       [(''type'', JStr ''function''),
        (''function'', JObj
          [(''name'', JStr ''get_current_weather''),
           (''description'', JStr ''Get the current weather in a given location.''),
           (''parameters'', JObj
             [(''type'', JStr ''object''),
              (''properties'', JObj
                [(''location'', JObj
                  [(''type'', JStr ''string''),
                   (''description'',
                      JStr ''The city and optional country (e.g. Bengaluru, IN).'')])]),
              (''required'', JArr [JStr ''location''])])])]]"

definition groq_initial_messages :: "string \<Rightarrow> message list" where
  "groq_initial_messages question =
     [SystemMessage ''You are a friendly weather assistant that uses tools when needed.'',
      UserMessage question]"

definition groq_first_request :: "string \<Rightarrow> chat_request" where
  "groq_first_request question =
     \<lparr>model = ''openai/gpt-oss-20b'', messages = groq_initial_messages question,
      temperature = PyInt 0, max_tokens = 300, tools = Some groq_tools,
      tool_choice = Some ''auto''\<rparr>"

definition groq_follow_up :: "string \<Rightarrow> assistant_message \<Rightarrow> message list \<Rightarrow> chat_request" where
  "groq_follow_up question assistant_message tms =
     \<lparr>model = ''openai/gpt-oss-20b'',
      messages = groq_initial_messages question
        @ [AssistantMessage (content assistant_message) (or_empty (tool_calls assistant_message))]
        @ tms,
      temperature = PyFloat (Fin False 2 (- 1)), max_tokens = 400, tools = None,
      tool_choice = None\<rparr>"

text \<open>The \<^verbatim>\<open>for call in tool_calls\<close> loop; an exception leaves it with the state reached.\<close>

fun groq_tool_loop :: "world \<Rightarrow> tool_call list \<Rightarrow> loop_state \<Rightarrow> exn option \<times> loop_state" where
  "groq_tool_loop w [] st = (None, st)"
| "groq_tool_loop w (call # calls) st =
     (if fn_name call \<noteq> ''get_current_weather''
      then groq_tool_loop w calls
             (st\<lparr>prints := prints st @ [[OStr (''Skipping unknown tool: '' @ fn_name call)]]\<rparr>)
      else
        (case json_loads (fn_arguments call) of
           Inl e \<Rightarrow> (Some e, st)
         | Inr args \<Rightarrow>
             (case call_with_kwargs ''location'' args of
                Inl e \<Rightarrow>
                  (Some e, st\<lparr>prints := prints st
                     @ [[OStr (CHR 0x0A # ''Tool call arguments from the model:''), OJson args]]\<rparr>)
              | Inr location \<Rightarrow>
                  (case groq_get_current_weather w location of
                     (Inl e, g) \<Rightarrow>
                       (Some e, st\<lparr>execs := execs st @ [(call, Inl e)], gets := gets st @ g,
                          prints := prints st
                            @ [[OStr (CHR 0x0A # ''Tool call arguments from the model:''),
                                OJson args]]\<rparr>)
                   | (Inr tool_output, g) \<Rightarrow>
                       groq_tool_loop w calls
                         (st\<lparr>tool_messages := tool_messages st
                               @ [ToolMessage (call_id call) (Some (fn_name call)) tool_output],
                             execs := execs st @ [(call, Inr tool_output)],
                             gets := gets st @ g,
                             prints := prints st
                               @ [[OStr (CHR 0x0A # ''Tool call arguments from the model:''),
                                   OJson args],
                                  [OStr ''Tool output (JSON):'', OStr tool_output]]\<rparr>)))))"

definition groq_call_model_with_tools :: "world \<Rightarrow> string \<Rightarrow> unit run" where
  "groq_call_model_with_tools w question =
     (case chat_create w (groq_first_request question) of
        Inl e \<Rightarrow>
          \<lparr>transport = [groq_first_request question], executed = [], fetched = [], printed = [],
           outcome = Inl e\<rparr>
      | Inr assistant_message \<Rightarrow>
          (let shown =
                 [[OStr (CHR 0x0A # ''Initial assistant response (should contain a tool call):'')],
                  [OMessage assistant_message]]
           in if or_empty (tool_calls assistant_message) = []
              then \<lparr>transport = [groq_first_request question], executed = [], fetched = [],
                    printed = shown @ [[OStr ''Model did not request a tool. Direct answer:''],
                                       print_content (content assistant_message)],
                    outcome = Inr ()\<rparr>
              else
                (case groq_tool_loop w (or_empty (tool_calls assistant_message))
                        \<lparr>tool_messages = [], execs = [], gets = [], prints = shown\<rparr> of
                   (Some e, st) \<Rightarrow>
                     \<lparr>transport = [groq_first_request question], executed = execs st,
                      fetched = gets st, printed = prints st, outcome = Inl e\<rparr>
                 | (None, st) \<Rightarrow>
                     if tool_messages st = []
                     then \<lparr>transport = [groq_first_request question], executed = execs st,
                           fetched = gets st,
                           printed = prints st
                             @ [[OStr ''No tool output to send back to the model; stopping here.'']],
                           outcome = Inr ()\<rparr>
                     else
                       (case chat_create w
                               (groq_follow_up question assistant_message (tool_messages st)) of
                          Inl e \<Rightarrow>
                            \<lparr>transport = [groq_first_request question,
                               groq_follow_up question assistant_message (tool_messages st)],
                             executed = execs st, fetched = gets st, printed = prints st,
                             outcome = Inl e\<rparr>
                        | Inr final \<Rightarrow>
                            \<lparr>transport = [groq_first_request question,
                               groq_follow_up question assistant_message (tool_messages st)],
                             executed = execs st, fetched = gets st,
                             printed = prints st
                               @ [[OStr (CHR 0x0A # ''Final assistant reply:'')],
                                  print_content (content final)],
                             outcome = Inr ()\<rparr>))))"

subsection \<open>\<^verbatim>\<open>openai_stock_function_call.py\<close>\<close>

definition openai_tools :: json where
  "openai_tools =
     JArr [JObj
       [(''type'', JStr ''function''),
        (''function'', JObj
          [(''name'', JStr ''get_current_stock_price''),
           (''description'',
              JStr ''Get the most recent close price for a stock ticker using Yahoo Finance.''),
           (''parameters'', JObj
             [(''type'', JStr ''object''),
              (''properties'', JObj
                [(''stock_symbol'', JObj
                  [(''type'', JStr ''string''),
                   (''description'',
                      JStr ''Ticker symbol such as TECHM.NS, AAPL, or RELIANCE.NS.'')])]),
              (''required'', JArr [JStr ''stock_symbol''])])])]]"

definition openai_initial_messages :: "string \<Rightarrow> message list" where
  "openai_initial_messages question =
     [SystemMessage (''You are an enthusiastic financial assistant. ''
                     @ ''Use the provided tools to ensure prices are accurate.''),
      UserMessage question]"

definition openai_first_request :: "string \<Rightarrow> chat_request" where
  "openai_first_request question =
     \<lparr>model = ''gpt-3.5-turbo'', messages = openai_initial_messages question,
      temperature = PyInt 0, max_tokens = 300, tools = Some openai_tools,
      tool_choice = Some ''auto''\<rparr>"

definition openai_follow_up :: "string \<Rightarrow> assistant_message \<Rightarrow> message list \<Rightarrow> chat_request" where
  "openai_follow_up question assistant_message tms =
     \<lparr>model = ''gpt-3.5-turbo'',
      messages = openai_initial_messages question
        @ [AssistantMessage (content assistant_message) (or_empty (tool_calls assistant_message))]
        @ tms,
      temperature = PyFloat (Fin False 2 (- 1)), max_tokens = 400, tools = None,
      tool_choice = None\<rparr>"

fun openai_tool_loop :: "world \<Rightarrow> tool_call list \<Rightarrow> loop_state \<Rightarrow> exn option \<times> loop_state" where
  "openai_tool_loop w [] st = (None, st)"
| "openai_tool_loop w (call # calls) st =
     (if fn_name call \<noteq> ''get_current_stock_price''
      then openai_tool_loop w calls
             (st\<lparr>prints := prints st
                @ [[OStr (''Skipping unsupported tool call: '' @ fn_name call)]]\<rparr>)
      else
        (case json_loads (fn_arguments call) of
           Inl e \<Rightarrow> (Some e, st)
         | Inr args \<Rightarrow>
             (case call_with_kwargs ''stock_symbol'' args of
                Inl e \<Rightarrow>
                  (Some e, st\<lparr>prints := prints st
                     @ [[OStr (CHR 0x0A # ''Tool call arguments:''), OJson args]]\<rparr>)
              | Inr stock_symbol \<Rightarrow>
                  (case get_current_stock_price w stock_symbol of
                     Inl e \<Rightarrow>
                       (Some e, st\<lparr>execs := execs st @ [(call, Inl e)],
                          prints := prints st
                            @ [[OStr (CHR 0x0A # ''Tool call arguments:''), OJson args]]\<rparr>)
                   | Inr tool_output \<Rightarrow>
                       openai_tool_loop w calls
                         (st\<lparr>tool_messages := tool_messages st
                               @ [ToolMessage (call_id call) (Some (fn_name call)) tool_output],
                             execs := execs st @ [(call, Inr tool_output)],
                             prints := prints st
                               @ [[OStr (CHR 0x0A # ''Tool call arguments:''), OJson args],
                                  [OStr ''Tool output (JSON):'', OStr tool_output]]\<rparr>)))))"

definition openai_call_model_with_tools :: "world \<Rightarrow> string \<Rightarrow> unit run" where
  "openai_call_model_with_tools w question =
     (case chat_create w (openai_first_request question) of
        Inl e \<Rightarrow>
          \<lparr>transport = [openai_first_request question], executed = [], fetched = [],
           printed = [], outcome = Inl e\<rparr>
      | Inr assistant_message \<Rightarrow>
          (case openai_tool_loop w (or_empty (tool_calls assistant_message))
                  \<lparr>tool_messages = [], execs = [], gets = [],
                   prints = [[OStr (CHR 0x0A # ''Initial assistant response:'')],
                             [OMessage assistant_message]]\<rparr> of
             (Some e, st) \<Rightarrow>
               \<lparr>transport = [openai_first_request question], executed = execs st,
                fetched = gets st, printed = prints st, outcome = Inl e\<rparr>
           | (None, st) \<Rightarrow>
               if tool_messages st = []
               then \<lparr>transport = [openai_first_request question], executed = execs st,
                     fetched = gets st,
                     printed = prints st
                       @ [[OStr (CHR 0x0A # ''Model response without tool call:'')],
                          print_content (content assistant_message)],
                     outcome = Inr ()\<rparr>
               else
                 (case chat_create w
                         (openai_follow_up question assistant_message (tool_messages st)) of
                    Inl e \<Rightarrow>
                      \<lparr>transport = [openai_first_request question,
                         openai_follow_up question assistant_message (tool_messages st)],
                       executed = execs st, fetched = gets st, printed = prints st,
                       outcome = Inl e\<rparr>
                  | Inr final \<Rightarrow>
                      \<lparr>transport = [openai_first_request question,
                         openai_follow_up question assistant_message (tool_messages st)],
                       executed = execs st, fetched = gets st,
                       printed = prints st
                         @ [[OStr (CHR 0x0A # ''Final assistant reply:'')],
                            print_content (content final)],
                       outcome = Inr ()\<rparr>)))"

subsection \<open>\<^verbatim>\<open>fastmcp_groq_weather_server.py\<close>\<close>

definition tool_schema :: json where
  "tool_schema =
     JArr [JObj
       [(''type'', JStr ''function''),
        (''function'', JObj
          [(''name'', JStr ''get_current_weather''),
           (''description'', JStr ''Get the current weather in a given location''),
           (''parameters'', JObj
             [(''type'', JStr ''object''),
              (''properties'', JObj
                [(''location'', JObj
                  [(''type'', JStr ''string''),
                   (''description'', JStr ''City and optional country (e.g. Bengaluru, IN)'')])]),
              (''required'', JArr [JStr ''location''])])])]]"

definition mcp_first_request :: "string \<Rightarrow> chat_request" where
  "mcp_first_request query =
     \<lparr>model = ''openai/gpt-oss-20b'', messages = [UserMessage query], temperature = PyInt 0,
      max_tokens = 300, tools = Some tool_schema, tool_choice = Some ''auto''\<rparr>"

definition mcp_second_request :: "string \<Rightarrow> assistant_message \<Rightarrow> tool_call \<Rightarrow> string \<Rightarrow> chat_request" where
  "mcp_second_request query groq_response call weather_data =
     \<lparr>model = ''openai/gpt-oss-20b'',
      messages = [UserMessage query,
                  AssistantMessage (content groq_response) [call],
                  ToolMessage (call_id call) None weather_data],
      temperature = PyInt 0, max_tokens = 300, tools = None, tool_choice = None\<rparr>"

definition get_weather_with_groq :: "world \<Rightarrow> string \<Rightarrow> (string option) run" where
  "get_weather_with_groq w query =
     (case chat_create w (mcp_first_request query) of
        Inl e \<Rightarrow>
          \<lparr>transport = [mcp_first_request query], executed = [], fetched = [], printed = [],
           outcome = Inl e\<rparr>
      | Inr groq_response \<Rightarrow>
          (case or_empty (tool_calls groq_response) of
             [] \<Rightarrow>
               \<lparr>transport = [mcp_first_request query], executed = [], fetched = [], printed = [],
                outcome = Inr (Some (case content groq_response of
                                       None \<Rightarrow> ''Model did not return any content.''
                                     | Some c \<Rightarrow> if c = [] then ''Model did not return any content.''
                                                 else c))\<rparr>
           | call # others \<Rightarrow>
               (case and_then (json_loads (fn_arguments call)) (call_with_kwargs ''location'') of
                  Inl e \<Rightarrow>
                    \<lparr>transport = [mcp_first_request query], executed = [], fetched = [],
                     printed = [], outcome = Inl e\<rparr>
                | Inr location \<Rightarrow>
                    (case mcp_get_current_weather w location of
                       (Inl e, g) \<Rightarrow>
                         \<lparr>transport = [mcp_first_request query], executed = [(call, Inl e)],
                          fetched = g, printed = [], outcome = Inl e\<rparr>
                     | (Inr weather_data, g) \<Rightarrow>
                         \<lparr>transport = [mcp_first_request query,
                            mcp_second_request query groq_response call weather_data],
                          executed = [(call, Inr weather_data)], fetched = g, printed = [],
                          outcome =
                            and_then (chat_create w
                                        (mcp_second_request query groq_response call weather_data))
                              (\<lambda>second_response. Inr (content second_response))\<rparr>))))"

definition get_weather_direct :: "world \<Rightarrow> json \<Rightarrow> (exn + string) \<times> http_get list" where
  "get_weather_direct w location = mcp_get_current_weather w location"

section \<open>Notions the properties are stated with\<close>

definition returns :: "exn + 'a \<Rightarrow> bool" where
  "returns r = (case r of Inl e \<Rightarrow> False | Inr x \<Rightarrow> True)"

text \<open>The executions that returned, each with the request that caused it.\<close>

fun completed :: "(tool_call \<times> (exn + string)) list \<Rightarrow> (tool_call \<times> string) list" where
  "completed [] = []"
| "completed ((c, Inl e) # xs) = completed xs"
| "completed ((c, Inr out) # xs) = (c, out) # completed xs"

fun is_tool_message :: "message \<Rightarrow> bool" where
  "is_tool_message (ToolMessage i n c) = True"
| "is_tool_message m = False"

text \<open>The tool-result messages of the last request a run sent.\<close>

definition sent_tool_messages :: "'r run \<Rightarrow> message list" where
  "sent_tool_messages r = filter is_tool_message (messages (last (transport r)))"

text \<open>The tool-result message the two command-line scripts build for an execution.\<close>

definition named_tool_message :: "tool_call \<times> string \<Rightarrow> message" where
  "named_tool_message x = ToolMessage (call_id (fst x)) (Some (fn_name (fst x))) (snd x)"



definition mcp_call_returns :: "world \<Rightarrow> tool_call \<Rightarrow> bool" where
  "mcp_call_returns w c =
     returns (and_then (and_then (json_loads (fn_arguments c)) (call_with_kwargs ''location''))
                (\<lambda>location. fst (mcp_get_current_weather w location)))"

definition is_json_object :: "string \<Rightarrow> bool" where
  "is_json_object s = (case json_loads s of Inr (JObj kvs) \<Rightarrow> True | _ \<Rightarrow> False)"

text \<open>
  The shape of the number tokens that \<open>json.dumps\<close> writes, and the characters that
  may follow a value inside an encoded document.
\<close>

definition delimited :: "string \<Rightarrow> bool" where
  "delimited r = (r = [] \<or> hd r = CHR '','' \<or> hd r = CHR '']'' \<or> hd r = CHR ''}'')"

definition int_digits :: "string \<Rightarrow> bool" where
  "int_digits ds = (ds \<noteq> [] \<and> list_all is_digit ds \<and> (hd ds = CHR ''0'' \<longrightarrow> ds = ''0''))"

definition exp_text :: "string \<Rightarrow> bool" where
  "exp_text x =
     (x = [] \<or> (\<exists>sg ds. x = CHR ''e'' # sg # ds \<and> (sg = CHR ''+'' \<or> sg = CHR ''-'')
                   \<and> ds \<noteq> [] \<and> list_all is_digit ds))"

definition number_text :: "bool \<Rightarrow> string \<Rightarrow> string \<Rightarrow> string \<Rightarrow> string" where
  "number_text neg ds fs x =
     (if neg then ''-'' else []) @ ds @ (if fs = [] then [] else CHR ''.'' # fs) @ x"

text \<open>The state in which each script enters its loop over the requested calls.\<close>

definition groq_start :: "assistant_message \<Rightarrow> loop_state" where
  "groq_start assistant_message =
     \<lparr>tool_messages = [], execs = [], gets = [],
      prints = [[OStr (CHR 0x0A # ''Initial assistant response (should contain a tool call):'')],
                [OMessage assistant_message]]\<rparr>"

definition openai_start :: "assistant_message \<Rightarrow> loop_state" where
  "openai_start assistant_message =
     \<lparr>tool_messages = [], execs = [], gets = [],
      prints = [[OStr (CHR 0x0A # ''Initial assistant response:'')],
                [OMessage assistant_message]]\<rparr>"

subsection \<open>Sample conversations\<close>

text \<open>
  A world in which the weather key is set, OpenWeatherMap answers 200 with
  \<open>sample_body\<close>, yfinance has no rows for any symbol, and the model answers \<open>first\<close>
  while tools are offered and \<open>final_reply\<close> afterwards.
\<close>

definition sample_body :: string where
  \<open>sample_body = ''{"main": {"temp": 26.87, "feels_like": 27.7, "humidity": 57, "pressure": 1011}, "wind": {"speed": 7.2}, "weather": [{"description": "scattered clouds", "icon": "03d"}]}''\<close>

definition sample_payload :: json where
  "sample_payload =
     JObj [(''main'', JObj [(''temp'', JNum (PyFloat (Fin False 2687 (- 2)))),
                            (''feels_like'', JNum (PyFloat (Fin False 277 (- 1)))),
                            (''humidity'', JNum (PyInt 57)),
                            (''pressure'', JNum (PyInt 1011))]),
           (''wind'', JObj [(''speed'', JNum (PyFloat (Fin False 72 (- 1))))]),
           (''weather'', JArr [JObj [(''description'', JStr ''scattered clouds''),
                                     (''icon'', JStr ''03d'')]])]"


definition paris_args :: string where
  \<open>paris_args = ''{"location": "Paris"}''\<close>


definition final_reply :: assistant_message where
  "final_reply = \<lparr>content = Some ''Done.'', tool_calls = None\<rparr>"

definition scripted :: "assistant_message \<Rightarrow> chat_request \<Rightarrow> exn + assistant_message" where
  "scripted first req = (if tools req = None then Inr final_reply else Inr first)"

definition sample_world :: "assistant_message \<Rightarrow> world" where
  "sample_world first =
     \<lparr>getenv = (\<lambda>v. if v = ''OPENWEATHER_API_KEY'' then Some ''k'' else None),
      chat_create = scripted first,
      requests_get =
        (\<lambda>g. Inr \<lparr>status_code = 200, reason = ''OK'', url = fst g, resp_text = sample_body\<rparr>),
      yf_history = (\<lambda>s. Inr []),
      fast_info_currency = (\<lambda>s. Inr None)\<rparr>"

definition html_world :: world where
  "html_world =
     (sample_world final_reply)
       \<lparr>requests_get :=
          (\<lambda>g. Inr \<lparr>status_code = 200, reason = ''OK'', url = fst g, resp_text = ''<html>''\<rparr>)\<rparr>"

definition keyless_world :: world where
  "keyless_world = (sample_world final_reply)\<lparr>getenv := (\<lambda>v. None)\<rparr>"

definition tool_request :: "string \<Rightarrow> string \<Rightarrow> string \<Rightarrow> tool_call" where
  "tool_request i n args =
     \<lparr>call_id = i, call_type = ''function'', fn_name = n, fn_arguments = args\<rparr>"

definition asking :: "tool_call list \<Rightarrow> assistant_message" where
  "asking cs = \<lparr>content = None, tool_calls = Some cs\<rparr>"

definition saying :: "string \<Rightarrow> assistant_message" where
  "saying s = \<lparr>content = Some s, tool_calls = Some []\<rparr>"

section \<open>Properties\<close>

subsection \<open>The sample conversations, evaluated\<close>

lemma loads_paris: "json_loads paris_args = Inr (JObj [(''location'', JStr ''Paris'')])"
  unfolding paris_args_def by code_simp


lemma loads_garbage: "json_loads ''not json'' = Inl JSONDecodeError"
  by code_simp

lemma loads_html: "json_loads ''<html>'' = Inl JSONDecodeError"
  by code_simp

lemma loads_sample_body: "json_loads sample_body = Inr sample_payload"
  unfolding sample_body_def sample_payload_def by code_simp

lemma groq_declares: "declared_names groq_tools = [''get_current_weather'']"
  by (simp add: groq_tools_def)

lemma openai_declares: "declared_names openai_tools = [''get_current_stock_price'']"
  by (simp add: openai_tools_def)

lemma mcp_declares: "declared_names tool_schema = [''get_current_weather'']"
  by (simp add: tool_schema_def)

lemma sample_weather:
  "fetch_weather (sample_world first) location ''k'' =
     (Inr (json_dumps (JObj
        [(''location'', location),
         (''temperature_c'', JNum (PyFloat (Fin False 2687 (- 2)))),
         (''feels_like_c'', JNum (PyFloat (Fin False 277 (- 1)))),
         (''humidity_pct'', JNum (PyInt 57)),
         (''pressure_hpa'', JNum (PyInt 1011)),
         (''wind_speed_mps'', JNum (PyFloat (Fin False 72 (- 1)))),
         (''description'', JStr ''scattered clouds''),
         (''icon'', JStr ''03d'')])),
      [(openweather_url, [(''q'', location), (''units'', JStr ''metric''), (''appid'', JStr ''k'')])])"
  by (simp add: fetch_weather_def sample_world_def raise_for_status_def response_json_def
        loads_sample_body weather_dict_def sample_payload_def del: json_dumps.simps)

lemma completed_append: "completed (xs @ ys) = completed xs @ completed ys"
  by (induction xs rule: completed.induct) simp_all


lemma and_then_Inr:
  "and_then m f = Inr y \<longleftrightarrow> (\<exists>x. m = Inr x \<and> f x = Inr y)"
  by (cases m) simp_all

lemma returns_and_then:
  "returns (and_then m f) \<longleftrightarrow> (\<exists>x. m = Inr x \<and> returns (f x))"
  by (cases m) (simp_all add: returns_def)

lemma returns_Inr: "returns r \<longleftrightarrow> (\<exists>x. r = Inr x)"
  by (cases r) (simp_all add: returns_def)


lemma groq_loop_step_ok:
  assumes "fn_name c = ''get_current_weather''"
    "json_loads (fn_arguments c) = Inr args"
    "call_with_kwargs ''location'' args = Inr location"
    "groq_get_current_weather w location = (Inr out, g)"
  shows "groq_tool_loop w (c # cs) st =
     groq_tool_loop w cs
       (st\<lparr>tool_messages := tool_messages st @ [named_tool_message (c, out)],
           execs := execs st @ [(c, Inr out)],
           gets := gets st @ g,
           prints := prints st
             @ [[OStr (CHR 0x0A # ''Tool call arguments from the model:''), OJson args],
                [OStr ''Tool output (JSON):'', OStr out]]\<rparr>)"
  using assms by (simp add: named_tool_message_def)

lemma groq_loop_skip:
  "fn_name c \<noteq> ''get_current_weather'' \<Longrightarrow>
     groq_tool_loop w (c # cs) st =
       groq_tool_loop w cs
         (st\<lparr>prints := prints st @ [[OStr (''Skipping unknown tool: '' @ fn_name c)]]\<rparr>)"
  by simp

lemma groq_loop_bad_args:
  "fn_name c = ''get_current_weather'' \<Longrightarrow> json_loads (fn_arguments c) = Inl e \<Longrightarrow>
     groq_tool_loop w (c # cs) st = (Some e, st)"
  by simp






lemma sample_groq_weather:
  "groq_get_current_weather (sample_world first) location =
     fetch_weather (sample_world first) location ''k''"
  by (simp add: groq_get_current_weather_def require_env_def sample_world_def)

lemma sample_mcp_weather:
  "mcp_get_current_weather (sample_world first) location =
     fetch_weather (sample_world first) location ''k''"
  by (simp add: mcp_get_current_weather_def sample_world_def)


lemma sample_chat:
  "tools req \<noteq> None \<Longrightarrow> chat_create (sample_world first) req = Inr first"
  "tools req = None \<Longrightarrow> chat_create (sample_world first) req = Inr final_reply"
  by (auto simp: sample_world_def scripted_def)



subsection \<open>The loops over the requested calls\<close>

lemma returns_simps [simp]: "returns (Inr x)" "\<not> returns (Inl e)"
  by (simp_all add: returns_def)



lemma mcp_call_returns_iff:
  "mcp_call_returns w c \<longleftrightarrow>
     (\<exists>args location out g.
        json_loads (fn_arguments c) = Inr args
        \<and> call_with_kwargs ''location'' args = Inr location
        \<and> mcp_get_current_weather w location = (Inr out, g))"
  by (auto simp: mcp_call_returns_def returns_and_then and_then_Inr returns_Inr)
     (metis prod.collapse)

lemma groq_loop_aligned:
  "tool_messages st = map named_tool_message (completed (execs st)) \<Longrightarrow>
     tool_messages (snd (groq_tool_loop w cs st)) =
       map named_tool_message (completed (execs (snd (groq_tool_loop w cs st))))"
  by (induction cs arbitrary: st)
     (auto simp: completed_append named_tool_message_def split: sum.splits prod.splits)

lemma openai_loop_aligned:
  "tool_messages st = map named_tool_message (completed (execs st)) \<Longrightarrow>
     tool_messages (snd (openai_tool_loop w cs st)) =
       map named_tool_message (completed (execs (snd (openai_tool_loop w cs st))))"
  by (induction cs arbitrary: st)
     (auto simp: completed_append named_tool_message_def split: sum.splits prod.splits)







lemma groq_loop_undecodable_stops:
  "c \<in> set cs \<Longrightarrow> fn_name c = ''get_current_weather'' \<Longrightarrow>
   json_loads (fn_arguments c) = Inl e \<Longrightarrow>
     fst (groq_tool_loop w cs st) \<noteq> None"
  by (induction cs arbitrary: st) (auto split: sum.splits prod.splits)

lemma groq_loop_undecodable_not_run:
  "c \<in> set cs \<Longrightarrow> fn_name c = ''get_current_weather'' \<Longrightarrow>
   json_loads (fn_arguments c) = Inl e \<Longrightarrow>
     filter (\<lambda>x. fst x = c) (execs (snd (groq_tool_loop w cs st))) =
       filter (\<lambda>x. fst x = c) (execs st)"
  by (induction cs arbitrary: st) (auto split: sum.splits prod.splits)

lemma openai_loop_undecodable_stops:
  "c \<in> set cs \<Longrightarrow> fn_name c = ''get_current_stock_price'' \<Longrightarrow>
   json_loads (fn_arguments c) = Inl e \<Longrightarrow>
     fst (openai_tool_loop w cs st) \<noteq> None"
  by (induction cs arbitrary: st) (auto split: sum.splits prod.splits)

lemma openai_loop_undecodable_not_run:
  "c \<in> set cs \<Longrightarrow> fn_name c = ''get_current_stock_price'' \<Longrightarrow>
   json_loads (fn_arguments c) = Inl e \<Longrightarrow>
     filter (\<lambda>x. fst x = c) (execs (snd (openai_tool_loop w cs st))) =
       filter (\<lambda>x. fst x = c) (execs st)"
  by (induction cs arbitrary: st) (auto split: sum.splits prod.splits)

lemma groq_loop_skips:
  "list_all (\<lambda>c. fn_name c \<noteq> ''get_current_weather'') cs \<Longrightarrow>
     fst (groq_tool_loop w cs st) = None
     \<and> tool_messages (snd (groq_tool_loop w cs st)) = tool_messages st
     \<and> execs (snd (groq_tool_loop w cs st)) = execs st
     \<and> gets (snd (groq_tool_loop w cs st)) = gets st"
  by (induction cs arbitrary: st) auto

lemma openai_loop_skips:
  "list_all (\<lambda>c. fn_name c \<noteq> ''get_current_stock_price'') cs \<Longrightarrow>
     fst (openai_tool_loop w cs st) = None
     \<and> tool_messages (snd (openai_tool_loop w cs st)) = tool_messages st
     \<and> execs (snd (openai_tool_loop w cs st)) = execs st
     \<and> gets (snd (openai_tool_loop w cs st)) = gets st"
  by (induction cs arbitrary: st) auto

lemma groq_loop_prints:
  "x \<in> set (prints st) \<Longrightarrow> x \<in> set (prints (snd (groq_tool_loop w cs st)))"
  by (induction cs arbitrary: st) (auto split: sum.splits prod.splits)

lemma openai_loop_prints:
  "x \<in> set (prints st) \<Longrightarrow> x \<in> set (prints (snd (openai_tool_loop w cs st)))"
  by (induction cs arbitrary: st) (auto split: sum.splits prod.splits)

subsection \<open>The shape of a run\<close>

lemma groq_run_shape:
  assumes "chat_create w (groq_first_request q) = Inr am"
  shows "executed (groq_call_model_with_tools w q) =
           execs (snd (groq_tool_loop w (or_empty (tool_calls am)) (groq_start am)))"
    and "transport (groq_call_model_with_tools w q) =
           (if fst (groq_tool_loop w (or_empty (tool_calls am)) (groq_start am)) = None
               \<and> tool_messages (snd (groq_tool_loop w (or_empty (tool_calls am)) (groq_start am))) \<noteq> []
            then [groq_first_request q,
                  groq_follow_up q am
                    (tool_messages (snd (groq_tool_loop w (or_empty (tool_calls am)) (groq_start am))))]
            else [groq_first_request q])"
    and "fst (groq_tool_loop w (or_empty (tool_calls am)) (groq_start am)) = Some e \<Longrightarrow>
           outcome (groq_call_model_with_tools w q) = Inl e"
  using assms
  by (cases "or_empty (tool_calls am) = []";
      cases "groq_tool_loop w (or_empty (tool_calls am)) (groq_start am)";
      cases "fst (groq_tool_loop w (or_empty (tool_calls am)) (groq_start am))";
      simp add: groq_call_model_with_tools_def Let_def groq_start_def split: sum.splits)+

lemma openai_run_shape:
  assumes "chat_create w (openai_first_request q) = Inr am"
  shows "executed (openai_call_model_with_tools w q) =
           execs (snd (openai_tool_loop w (or_empty (tool_calls am)) (openai_start am)))"
    and "transport (openai_call_model_with_tools w q) =
           (if fst (openai_tool_loop w (or_empty (tool_calls am)) (openai_start am)) = None
               \<and> tool_messages (snd (openai_tool_loop w (or_empty (tool_calls am)) (openai_start am))) \<noteq> []
            then [openai_first_request q,
                  openai_follow_up q am
                    (tool_messages (snd (openai_tool_loop w (or_empty (tool_calls am)) (openai_start am))))]
            else [openai_first_request q])"
    and "fst (openai_tool_loop w (or_empty (tool_calls am)) (openai_start am)) = Some e \<Longrightarrow>
           outcome (openai_call_model_with_tools w q) = Inl e"
  using assms
  by (cases "openai_tool_loop w (or_empty (tool_calls am)) (openai_start am)";
      cases "fst (openai_tool_loop w (or_empty (tool_calls am)) (openai_start am))";
      simp add: openai_call_model_with_tools_def Let_def openai_start_def split: sum.splits)+

lemma groq_start_aligned:
  "tool_messages (groq_start am) = map named_tool_message (completed (execs (groq_start am)))"
  by (simp add: groq_start_def)

lemma openai_start_aligned:
  "tool_messages (openai_start am) = map named_tool_message (completed (execs (openai_start am)))"
  by (simp add: openai_start_def)

lemma filter_named_tool_messages:
  "filter is_tool_message (map named_tool_message xs) = map named_tool_message xs"
  by (induction xs) (simp_all add: named_tool_message_def)

lemma named_tool_messages_match:
  "list_all2 (\<lambda>m x. tool_call_id m = call_id (fst x) \<and> tool_content m = snd x)
     (map named_tool_message xs) xs"
  by (induction xs) (simp_all add: named_tool_message_def)

lemma groq_sent:
  "sent_tool_messages (groq_call_model_with_tools w q) =
     (if length (transport (groq_call_model_with_tools w q)) = 2
      then map named_tool_message (completed (executed (groq_call_model_with_tools w q)))
      else [])"
proof (cases "chat_create w (groq_first_request q)")
  case (Inl e)
  then show ?thesis
    by (simp add: groq_call_model_with_tools_def sent_tool_messages_def groq_first_request_def
          groq_initial_messages_def)
next
  case (Inr am)
  show ?thesis
    using groq_run_shape(1,2) [OF Inr]
      groq_loop_aligned [OF groq_start_aligned, of w "or_empty (tool_calls am)" am]
    by (simp add: sent_tool_messages_def groq_follow_up_def groq_first_request_def
          groq_initial_messages_def filter_named_tool_messages)
qed

lemma openai_sent:
  "sent_tool_messages (openai_call_model_with_tools w q) =
     (if length (transport (openai_call_model_with_tools w q)) = 2
      then map named_tool_message (completed (executed (openai_call_model_with_tools w q)))
      else [])"
proof (cases "chat_create w (openai_first_request q)")
  case (Inl e)
  then show ?thesis
    by (simp add: openai_call_model_with_tools_def sent_tool_messages_def openai_first_request_def
          openai_initial_messages_def)
next
  case (Inr am)
  show ?thesis
    using openai_run_shape(1,2) [OF Inr]
      openai_loop_aligned [OF openai_start_aligned, of w "or_empty (tool_calls am)" am]
    by (simp add: sent_tool_messages_def openai_follow_up_def openai_first_request_def
          openai_initial_messages_def filter_named_tool_messages)
qed

lemma mcp_sent:
  "list_all2 (\<lambda>m x. tool_call_id m = call_id (fst x) \<and> tool_content m = snd x)
     (sent_tool_messages (get_weather_with_groq w q))
     (if length (transport (get_weather_with_groq w q)) = 2
      then completed (executed (get_weather_with_groq w q)) else [])"
  by (simp add: get_weather_with_groq_def sent_tool_messages_def mcp_first_request_def
        mcp_second_request_def split: sum.splits list.splits prod.splits)

subsection \<open>What the sample world does with a request\<close>




subsection \<open>A first reply without tool requests\<close>

text \<open>
  Claim C2, as the code has it. When the first reply requests no tool, each
  orchestrator sends one chat-completion request and enters no executor. The two
  command-line scripts print the reply's content as it is, as their last output; the
  FastMCP handler returns it as it is unless it is null or empty, and then returns the
  text \<open>Model did not return any content.\<close>
\<close>

theorem no_tool_single_round:
  "or_empty (tool_calls am) = [] \<Longrightarrow>
     (chat_create w (groq_first_request q) = Inr am \<longrightarrow>
        transport (groq_call_model_with_tools w q) = [groq_first_request q]
        \<and> executed (groq_call_model_with_tools w q) = []
        \<and> last (printed (groq_call_model_with_tools w q)) = print_content (content am)
        \<and> outcome (groq_call_model_with_tools w q) = Inr ())
   \<and> (chat_create w (openai_first_request q) = Inr am \<longrightarrow>
        transport (openai_call_model_with_tools w q) = [openai_first_request q]
        \<and> executed (openai_call_model_with_tools w q) = []
        \<and> last (printed (openai_call_model_with_tools w q)) = print_content (content am)
        \<and> outcome (openai_call_model_with_tools w q) = Inr ())
   \<and> (chat_create w (mcp_first_request q) = Inr am \<longrightarrow>
        transport (get_weather_with_groq w q) = [mcp_first_request q]
        \<and> executed (get_weather_with_groq w q) = []
        \<and> outcome (get_weather_with_groq w q) =
            Inr (Some (if content am = None \<or> content am = Some []
                       then ''Model did not return any content.'' else the (content am))))"
  by (auto simp: groq_call_model_with_tools_def openai_call_model_with_tools_def
        get_weather_with_groq_def)

theorem no_tool_single_round_witness:
  "transport (groq_call_model_with_tools (sample_world (saying ''Sunny.'')) ''hi'')
     = [groq_first_request ''hi'']
   \<and> last (printed (groq_call_model_with_tools (sample_world (saying ''Sunny.'')) ''hi''))
     = [OStr ''Sunny.'']
   \<and> last (printed (openai_call_model_with_tools (sample_world (saying ''Sunny.'')) ''hi''))
     = [OStr ''Sunny.'']
   \<and> outcome (get_weather_with_groq (sample_world (saying ''Sunny.'')) ''hi'')
     = Inr (Some ''Sunny.'')"
  using no_tool_single_round [of "saying ''Sunny.''" "sample_world (saying ''Sunny.'')" "''hi''"]
  by (simp add: saying_def sample_chat or_empty_def print_content_def
        groq_first_request_def openai_first_request_def mcp_first_request_def)

text \<open>An empty content is not returned unchanged by the FastMCP handler.\<close>

theorem empty_content_counterexample:
  "or_empty (tool_calls (saying [])) = []
   \<and> chat_create (sample_world (saying [])) (mcp_first_request ''hi'') = Inr (saying [])
   \<and> content (saying []) = Some []
   \<and> outcome (get_weather_with_groq (sample_world (saying [])) ''hi'')
       = Inr (Some ''Model did not return any content.'')"
  by (simp add: saying_def sample_chat or_empty_def mcp_first_request_def
        get_weather_with_groq_def)

subsection \<open>Requests for a tool that was never declared\<close>

lemma undeclared_requests_skipped:
  assumes "list_all (\<lambda>c. fn_name c \<notin> set (declared_names groq_tools)) (or_empty (tool_calls am))"
    and "chat_create w (groq_first_request q) = Inr am"
  shows "executed (groq_call_model_with_tools w q) = []"
    and "transport (groq_call_model_with_tools w q) = [groq_first_request q]"
    and "[OMessage am] \<in> set (printed (groq_call_model_with_tools w q))"
    and "outcome (groq_call_model_with_tools w q) = Inr ()"
proof -
  let ?res = "groq_tool_loop w (or_empty (tool_calls am)) (groq_start am)"
  from assms(1) have skip:
    "fst ?res = None" "tool_messages (snd ?res) = []" "execs (snd ?res) = []"
    using groq_loop_skips [of "or_empty (tool_calls am)" w "groq_start am"]
    by (simp_all add: groq_declares groq_start_def)
  show "executed (groq_call_model_with_tools w q) = []"
    and "transport (groq_call_model_with_tools w q) = [groq_first_request q]"
    using groq_run_shape(1,2) [OF assms(2)] skip by simp_all
  have "[OMessage am] \<in> set (prints (snd ?res))"
    by (rule groq_loop_prints) (simp add: groq_start_def)
  with skip assms(2) show "[OMessage am] \<in> set (printed (groq_call_model_with_tools w q))"
    by (cases ?res) (auto simp: groq_call_model_with_tools_def Let_def groq_start_def)
  from skip assms(2) show "outcome (groq_call_model_with_tools w q) = Inr ()"
    by (cases ?res) (auto simp: groq_call_model_with_tools_def Let_def groq_start_def)
qed

lemma unsupported_requests_skipped:
  assumes "list_all (\<lambda>c. fn_name c \<notin> set (declared_names openai_tools)) (or_empty (tool_calls am))"
    and "chat_create w (openai_first_request q) = Inr am"
  shows "executed (openai_call_model_with_tools w q) = []"
    and "transport (openai_call_model_with_tools w q) = [openai_first_request q]"
    and "last (printed (openai_call_model_with_tools w q)) = print_content (content am)"
    and "outcome (openai_call_model_with_tools w q) = Inr ()"
proof -
  let ?res = "openai_tool_loop w (or_empty (tool_calls am)) (openai_start am)"
  from assms(1) have skip:
    "fst ?res = None" "tool_messages (snd ?res) = []" "execs (snd ?res) = []"
    using openai_loop_skips [of "or_empty (tool_calls am)" w "openai_start am"]
    by (simp_all add: openai_declares openai_start_def)
  show "executed (openai_call_model_with_tools w q) = []"
    and "transport (openai_call_model_with_tools w q) = [openai_first_request q]"
    using openai_run_shape(1,2) [OF assms(2)] skip by simp_all
  from skip assms(2)
  show "last (printed (openai_call_model_with_tools w q)) = print_content (content am)"
    and "outcome (openai_call_model_with_tools w q) = Inr ()"
    by (cases ?res; auto simp: openai_call_model_with_tools_def Let_def openai_start_def)+
qed

text \<open>
  Claim C3 fails in \<^verbatim>\<open>fastmcp_groq_weather_server.py\<close>, which never looks at the name of
  the first request: asked for the undeclared \<open>get_stock_quote\<close>, the handler runs
  \<open>get_current_weather\<close> on its arguments, fetches from OpenWeatherMap and sends a second
  chat-completion request. The two command-line scripts skip such a request, as the
  two lemmas above show.
\<close>

theorem mcp_runs_undeclared_tool:
  "fn_name (tool_request ''call_1'' ''get_stock_quote'' paris_args) \<notin> set (declared_names tool_schema)
   \<and> map fst (executed (get_weather_with_groq
         (sample_world (asking [tool_request ''call_1'' ''get_stock_quote'' paris_args])) ''q''))
       = [tool_request ''call_1'' ''get_stock_quote'' paris_args]
   \<and> length (fetched (get_weather_with_groq
         (sample_world (asking [tool_request ''call_1'' ''get_stock_quote'' paris_args])) ''q'')) = 1
   \<and> length (transport (get_weather_with_groq
         (sample_world (asking [tool_request ''call_1'' ''get_stock_quote'' paris_args])) ''q'')) = 2
   \<and> outcome (get_weather_with_groq
         (sample_world (asking [tool_request ''call_1'' ''get_stock_quote'' paris_args])) ''q'')
       = Inr (Some ''Done.'')"
  by (simp add: get_weather_with_groq_def sample_chat mcp_first_request_def mcp_second_request_def
        asking_def or_empty_def tool_request_def loads_paris mcp_declares final_reply_def
        sample_mcp_weather sample_weather
        del: json_dumps.simps)

subsection \<open>Arguments that are not JSON\<close>

text \<open>
  Claim C4, as the code has it. No script catches the \<open>JSONDecodeError\<close> of
  \<open>json.loads\<close>. In the two command-line scripts a declared request whose arguments do
  not decode is never executed, and the run ends in an exception after the first
  chat-completion request; in the FastMCP handler the same holds for the first request,
  the only one it reads, and the exception is the decode error itself.
\<close>

theorem undecodable_arguments_propagate:
  "c \<in> set (or_empty (tool_calls am)) \<Longrightarrow> json_loads (fn_arguments c) = Inl e \<Longrightarrow>
     (chat_create w (groq_first_request q) = Inr am \<and> fn_name c = ''get_current_weather'' \<longrightarrow>
        \<not> returns (outcome (groq_call_model_with_tools w q))
        \<and> filter (\<lambda>x. fst x = c) (executed (groq_call_model_with_tools w q)) = []
        \<and> transport (groq_call_model_with_tools w q) = [groq_first_request q])
   \<and> (chat_create w (openai_first_request q) = Inr am \<and> fn_name c = ''get_current_stock_price'' \<longrightarrow>
        \<not> returns (outcome (openai_call_model_with_tools w q))
        \<and> filter (\<lambda>x. fst x = c) (executed (openai_call_model_with_tools w q)) = []
        \<and> transport (openai_call_model_with_tools w q) = [openai_first_request q])
   \<and> (chat_create w (mcp_first_request q) = Inr am \<and> hd (or_empty (tool_calls am)) = c \<longrightarrow>
        outcome (get_weather_with_groq w q) = Inl e
        \<and> executed (get_weather_with_groq w q) = []
        \<and> transport (get_weather_with_groq w q) = [mcp_first_request q])"
proof (intro conjI impI)
  assume c: "c \<in> set (or_empty (tool_calls am))" and bad: "json_loads (fn_arguments c) = Inl e"
  {
    assume h: "chat_create w (groq_first_request q) = Inr am \<and> fn_name c = ''get_current_weather''"
    let ?res = "groq_tool_loop w (or_empty (tool_calls am)) (groq_start am)"
    from h c bad obtain e' where stop: "fst ?res = Some e'"
      using groq_loop_undecodable_stops [of c "or_empty (tool_calls am)" e w "groq_start am"]
      by auto
    from h have shape: "executed (groq_call_model_with_tools w q) = execs (snd ?res)"
      "transport (groq_call_model_with_tools w q) = [groq_first_request q]"
      "outcome (groq_call_model_with_tools w q) = Inl e'"
      using groq_run_shape(1,2) [of w q am] groq_run_shape(3) [of w q am e'] stop by simp_all
    show "\<not> returns (outcome (groq_call_model_with_tools w q))"
      "transport (groq_call_model_with_tools w q) = [groq_first_request q]"
      using shape by simp_all
    show "filter (\<lambda>x. fst x = c) (executed (groq_call_model_with_tools w q)) = []"
      using groq_loop_undecodable_not_run [of c "or_empty (tool_calls am)" e w "groq_start am"]
        h c bad shape(1)
      by (simp add: groq_start_def)
  }
  {
    assume h: "chat_create w (openai_first_request q) = Inr am
               \<and> fn_name c = ''get_current_stock_price''"
    let ?res = "openai_tool_loop w (or_empty (tool_calls am)) (openai_start am)"
    from h c bad obtain e' where stop: "fst ?res = Some e'"
      using openai_loop_undecodable_stops [of c "or_empty (tool_calls am)" e w "openai_start am"]
      by auto
    from h have shape: "executed (openai_call_model_with_tools w q) = execs (snd ?res)"
      "transport (openai_call_model_with_tools w q) = [openai_first_request q]"
      "outcome (openai_call_model_with_tools w q) = Inl e'"
      using openai_run_shape(1,2) [of w q am] openai_run_shape(3) [of w q am e'] stop by simp_all
    show "\<not> returns (outcome (openai_call_model_with_tools w q))"
      "transport (openai_call_model_with_tools w q) = [openai_first_request q]"
      using shape by simp_all
    show "filter (\<lambda>x. fst x = c) (executed (openai_call_model_with_tools w q)) = []"
      using openai_loop_undecodable_not_run [of c "or_empty (tool_calls am)" e w "openai_start am"]
        h c bad shape(1)
      by (simp add: openai_start_def)
  }
  {
    assume h: "chat_create w (mcp_first_request q) = Inr am \<and> hd (or_empty (tool_calls am)) = c"
    with c bad show "outcome (get_weather_with_groq w q) = Inl e"
      "executed (get_weather_with_groq w q) = []"
      "transport (get_weather_with_groq w q) = [mcp_first_request q]"
      by (cases "or_empty (tool_calls am)"; auto simp: get_weather_with_groq_def)+
  }
qed

theorem undecodable_arguments_propagate_witness:
  "\<not> returns (outcome (groq_call_model_with_tools
       (sample_world (asking [tool_request ''call_1'' ''get_current_weather'' ''not json''])) ''q''))
   \<and> transport (groq_call_model_with_tools
       (sample_world (asking [tool_request ''call_1'' ''get_current_weather'' ''not json''])) ''q'')
     = [groq_first_request ''q'']
   \<and> \<not> returns (outcome (openai_call_model_with_tools
       (sample_world (asking [tool_request ''call_1'' ''get_current_stock_price'' ''not json''])) ''q''))
   \<and> outcome (get_weather_with_groq
       (sample_world (asking [tool_request ''call_1'' ''get_current_weather'' ''not json''])) ''q'')
     = Inl JSONDecodeError
   \<and> executed (get_weather_with_groq
       (sample_world (asking [tool_request ''call_1'' ''get_current_weather'' ''not json''])) ''q'')
     = []"
  using
    undecodable_arguments_propagate
      [of "tool_request ''call_1'' ''get_current_weather'' ''not json''"
          "asking [tool_request ''call_1'' ''get_current_weather'' ''not json'']"
          JSONDecodeError
          "sample_world (asking [tool_request ''call_1'' ''get_current_weather'' ''not json''])" "''q''"]
    undecodable_arguments_propagate
      [of "tool_request ''call_1'' ''get_current_stock_price'' ''not json''"
          "asking [tool_request ''call_1'' ''get_current_stock_price'' ''not json'']"
          JSONDecodeError
          "sample_world (asking [tool_request ''call_1'' ''get_current_stock_price'' ''not json''])" "''q''"]
  by (simp add: asking_def tool_request_def or_empty_def loads_garbage sample_chat
        groq_first_request_def openai_first_request_def mcp_first_request_def)

text \<open>
  The exception is not turned into a report: it leaves \<open>call_model_with_tools\<close>, and
  \<open>main\<close> has no handler for it.
\<close>

theorem undecodable_arguments_counterexample:
  "json_loads (fn_arguments (tool_request ''call_1'' ''get_current_weather'' ''not json''))
     = Inl JSONDecodeError
   \<and> outcome (groq_call_model_with_tools
       (sample_world (asking [tool_request ''call_1'' ''get_current_weather'' ''not json''])) ''q'')
     = Inl JSONDecodeError
   \<and> outcome (openai_call_model_with_tools
       (sample_world (asking [tool_request ''call_1'' ''get_current_stock_price'' ''not json''])) ''q'')
     = Inl JSONDecodeError"
  by (simp add: asking_def tool_request_def or_empty_def loads_garbage sample_chat
        groq_first_request_def openai_first_request_def groq_call_model_with_tools_def
        openai_call_model_with_tools_def Let_def)

subsection \<open>Order of the executions and the pairs collected\<close>




subsection \<open>Tool-result messages carry the id of their request\<close>

text \<open>
  Claim C7. In every run of every orchestrator, the tool-result messages of the request
  sent in round two are, in order, the executions that returned: each carries the
  \<open>id\<close> of the request that caused the execution and the executor's output as its
  content. A run that sends no second request sends no tool-result message.
\<close>

theorem tool_result_ids_match:
  "list_all2 (\<lambda>m x. tool_call_id m = call_id (fst x) \<and> tool_content m = snd x)
     (sent_tool_messages (groq_call_model_with_tools w q))
     (if length (transport (groq_call_model_with_tools w q)) = 2
      then completed (executed (groq_call_model_with_tools w q)) else [])
   \<and> list_all2 (\<lambda>m x. tool_call_id m = call_id (fst x) \<and> tool_content m = snd x)
     (sent_tool_messages (openai_call_model_with_tools w q))
     (if length (transport (openai_call_model_with_tools w q)) = 2
      then completed (executed (openai_call_model_with_tools w q)) else [])
   \<and> list_all2 (\<lambda>m x. tool_call_id m = call_id (fst x) \<and> tool_content m = snd x)
     (sent_tool_messages (get_weather_with_groq w q))
     (if length (transport (get_weather_with_groq w q)) = 2
      then completed (executed (get_weather_with_groq w q)) else [])"
  using mcp_sent [of w q]
  by (simp add: groq_sent openai_sent named_tool_messages_match)

theorem tool_result_ids_match_witness:
  "map tool_call_id (sent_tool_messages (groq_call_model_with_tools
       (sample_world (asking [tool_request ''call_1'' ''get_current_weather'' paris_args,
                              tool_request ''call_2'' ''get_stock_quote'' paris_args,
                              tool_request ''call_3'' ''get_current_weather'' paris_args])) ''q''))
     = [''call_1'', ''call_3'']"
proof -
  let ?w = "sample_world (asking [tool_request ''call_1'' ''get_current_weather'' paris_args,
                              tool_request ''call_2'' ''get_stock_quote'' paris_args,
                              tool_request ''call_3'' ''get_current_weather'' paris_args])"
  let ?run = "groq_call_model_with_tools ?w ''q''"
  have ex: "map fst (completed (executed ?run)) =
      [tool_request ''call_1'' ''get_current_weather'' paris_args,
       tool_request ''call_3'' ''get_current_weather'' paris_args]"
    and two: "length (transport ?run) = 2"
    by (simp_all add: asking_def tool_request_def or_empty_def loads_paris sample_chat
        groq_first_request_def groq_follow_up_def groq_call_model_with_tools_def Let_def
        sample_groq_weather sample_weather del: json_dumps.simps)
  have "list_all2 (\<lambda>m x. tool_call_id m = call_id (fst x) \<and> tool_content m = snd x)
          (sent_tool_messages ?run) (completed (executed ?run))"
    using tool_result_ids_match [of ?w "''q''"] two by simp
  then have "map tool_call_id (sent_tool_messages ?run) = map (\<lambda>x. call_id (fst x)) (completed (executed ?run))"
    by (induction rule: list_all2_induct) simp_all
  also have "\<dots> = map call_id (map fst (completed (executed ?run)))"
    by simp
  finally show ?thesis
    unfolding ex by (simp add: tool_request_def)
qed

subsection \<open>Failures of the weather request\<close>

lemma request_failure_caught:
  "requests_get w (openweather_url,
      [(''q'', location), (''units'', JStr ''metric''), (''appid'', JStr api_key)])
     = Inl (RequestException exc) \<Longrightarrow>
   fst (fetch_weather w location api_key) =
     Inr (json_dumps (JObj [(''error'', JStr (''OpenWeatherMap request failed: '' @ exc))]))"
  by (simp add: fetch_weather_def del: json_dumps.simps)

lemma error_status_caught:
  "requests_get w (openweather_url,
      [(''q'', location), (''units'', JStr ''metric''), (''appid'', JStr api_key)])
     = Inr response \<Longrightarrow>
   400 \<le> status_code response \<Longrightarrow> status_code response < 600 \<Longrightarrow>
   \<exists>exc. fst (fetch_weather w location api_key) =
     Inr (json_dumps (JObj [(''error'', JStr (''OpenWeatherMap request failed: '' @ exc))]))"
  by (auto simp: fetch_weather_def raise_for_status_def simp del: json_dumps.simps)

text \<open>
  Claim C5 fails for a malformed body. \<open>response.json()\<close> and the subscripts on the
  payload come after the \<^verbatim>\<open>try\<close> block, so a 200 response whose body is not JSON
  raises out of \<open>get_current_weather\<close> in both weather scripts, after the request was
  made. A failed request and a 4xx or 5xx status are caught, as the two lemmas above
  show.
\<close>

theorem malformed_body_escapes:
  "groq_get_current_weather html_world (JStr ''Paris'') =
     (Inl JSONDecodeError,
      [(openweather_url, [(''q'', JStr ''Paris''), (''units'', JStr ''metric''),
                          (''appid'', JStr ''k'')])])
   \<and> mcp_get_current_weather html_world (JStr ''Paris'') =
     (Inl JSONDecodeError,
      [(openweather_url, [(''q'', JStr ''Paris''), (''units'', JStr ''metric''),
                          (''appid'', JStr ''k'')])])"
  by (simp add: groq_get_current_weather_def mcp_get_current_weather_def require_env_def
        html_world_def sample_world_def fetch_weather_def raise_for_status_def
        response_json_def loads_html)

subsection \<open>The demo payload\<close>






subsection \<open>A symbol without pricing data\<close>












subsection \<open>The decoder accepts what the encoder writes: strings\<close>

lemma hex_val_hex_char: "hex_val (hex_char d) = Some (d mod 16)"
proof -
  have "\<forall>k<16. hex_val (''0123456789abcdef'' ! k) = Some k"
    by code_simp
  then show ?thesis
    by (simp add: hex_char_def)
qed

lemma read_hex4_hex4:
  "\<exists>u. read_hex4 (hex_char a) (hex_char b) (hex_char c) (hex_char d) = Some u"
  by (simp add: read_hex4_def hex_val_hex_char)

lemma scan_u_escape:
  "\<exists>hi' acc'. scan_string hi acc (u_escape n @ r) = scan_string hi' acc' r"
proof -
  obtain u where u: "read_hex4 (hex_char (n div 4096)) (hex_char (n div 256))
      (hex_char (n div 16)) (hex_char n) = Some u"
    using read_hex4_hex4 by blast
  show ?thesis
    by (cases hi) (auto simp: u_escape_def hex4_def u)
qed

lemma of_char_char_of_nat: "n < 256 \<Longrightarrow> (of_char (char_of n) :: nat) = n"
  by (simp add: of_char_of)

lemma scan_plain:
  assumes "0x20 \<le> c" "c \<le> 0x7E" "c \<noteq> 0x22" "c \<noteq> 0x5C"
  shows "scan_string hi acc (char_of (c :: nat) # r) = scan_string None (flush hi acc @ [char_of c]) r"
proof -
  have oc: "(of_char (char_of c) :: nat) = c"
    using assms by (simp add: of_char_of)
  have "char_of c \<noteq> CHR 0x22"
  proof
    assume "char_of c = CHR 0x22"
    then have "(of_char (char_of c) :: nat) = of_char (CHR 0x22)" by simp
    with oc assms show False by simp
  qed
  moreover have "char_of c \<noteq> CHR 0x5C"
  proof
    assume "char_of c = CHR 0x5C"
    then have "(of_char (char_of c) :: nat) = of_char (CHR 0x5C)" by simp
    with oc assms show False by simp
  qed
  ultimately show ?thesis
    using oc assms by simp
qed

lemma scan_escape_cp:
  "\<exists>hi' acc'. scan_string hi acc (escape_cp c @ r) = scan_string hi' acc' r"
proof -
  consider (simple) "c = 0x22 \<or> c = 0x5C \<or> c = 0x0A \<or> c = 0x0D \<or> c = 0x09 \<or> c = 0x08 \<or> c = 0x0C"
    | (plain) "0x20 \<le> c" "c \<le> 0x7E" "c \<noteq> 0x22" "c \<noteq> 0x5C"
    | (bmp) "\<not> (0x20 \<le> c \<and> c \<le> 0x7E)" "c \<noteq> 0x0A" "c \<noteq> 0x0D" "c \<noteq> 0x09" "c \<noteq> 0x08"
        "c \<noteq> 0x0C" "c < 0x10000"
    | (pair) "\<not> c < 0x10000"
    by linarith
  then show ?thesis
  proof cases
    case simple
    then show ?thesis
      by (auto simp: escape_cp_def simple_escape_def)
  next
    case plain
    then have "escape_cp c = [char_of c]"
      by (simp add: escape_cp_def)
    with scan_plain [OF plain] show ?thesis
      by auto
  next
    case bmp
    then have "escape_cp c = u_escape c"
      by (auto simp: escape_cp_def)
    with scan_u_escape show ?thesis by simp
  next
    case pair
    then have e: "escape_cp c = u_escape (0xD800 + (c - 0x10000) div 1024 mod 1024)
           @ u_escape (0xDC00 + (c - 0x10000) mod 1024)"
      by (auto simp: escape_cp_def)
    obtain h1 a1 where
      "scan_string hi acc (u_escape (0xD800 + (c - 0x10000) div 1024 mod 1024)
           @ (u_escape (0xDC00 + (c - 0x10000) mod 1024) @ r))
       = scan_string h1 a1 (u_escape (0xDC00 + (c - 0x10000) mod 1024) @ r)"
      using scan_u_escape by blast
    moreover obtain h2 a2 where
      "scan_string h1 a1 (u_escape (0xDC00 + (c - 0x10000) mod 1024) @ r) = scan_string h2 a2 r"
      using scan_u_escape by blast
    ultimately show ?thesis
      unfolding e by (metis append.assoc)
  qed
qed

lemma scan_string_body:
  "\<exists>s'. scan_string hi acc (concat (map escape_cp cps) @ CHR 0x22 # rest) = Some (s', rest)"
proof (induction cps arbitrary: hi acc)
  case Nil
  show ?case by simp
next
  case (Cons c cps)
  obtain hi' acc' where
    "scan_string hi acc (escape_cp c @ (concat (map escape_cp cps) @ CHR 0x22 # rest))
       = scan_string hi' acc' (concat (map escape_cp cps) @ CHR 0x22 # rest)"
    using scan_escape_cp by blast
  with Cons.IH [of hi' acc'] show ?case by simp
qed

lemma scan_dump_string:
  "\<exists>s'. scan_string None [] (tl (dump_string s) @ rest) = Some (s', rest)"
  using scan_string_body [of None "[]" "code_points s" rest]
  by (simp add: dump_string_def)

subsection \<open>The decoder accepts what the encoder writes: numbers\<close>

declare show_nat.simps [simp del] strip_zeros.simps [simp del]

lemma is_digit_digit_char: "is_digit (digit_char d)"
proof -
  have "\<forall>k<10. is_digit (''0123456789'' ! k)"
    by code_simp
  then show ?thesis
    by (simp add: digit_char_def)
qed

lemma digit_char_zero: "digit_char d = CHR ''0'' \<Longrightarrow> d mod 10 = 0"
proof -
  have "\<forall>k<10. ''0123456789'' ! k = CHR ''0'' \<longrightarrow> k = 0"
    by code_simp
  moreover assume "digit_char d = CHR ''0''"
  ultimately show ?thesis
    by (simp add: digit_char_def)
qed

lemma show_nat_digits: "list_all is_digit (show_nat n)"
  by (induction n rule: show_nat.induct)
     (subst show_nat.simps, simp add: is_digit_digit_char)

lemma show_nat_nonempty: "show_nat n \<noteq> []"
  by (subst show_nat.simps) simp

lemma show_nat_hd: "0 < n \<Longrightarrow> hd (show_nat n) \<noteq> CHR ''0''"
proof (induction n rule: show_nat.induct)
  case (1 n)
  show ?case
  proof (cases "n < 10")
    case True
    with "1.prems" have "n mod 10 \<noteq> 0" by simp
    then have "digit_char n \<noteq> CHR ''0''"
      using digit_char_zero [of n] by (cases "digit_char n = CHR ''0''") simp_all
    moreover have "show_nat n = [digit_char n]"
      using True by (subst show_nat.simps) simp
    ultimately show ?thesis by simp
  next
    case False
    then have pos: "0 < n div 10" by linarith
    have "hd (show_nat (n div 10)) \<noteq> CHR ''0''"
      using False pos by (rule "1.IH")
    moreover have "show_nat n = show_nat (n div 10) @ [digit_char n]"
      using False by (subst show_nat.simps) simp
    ultimately show ?thesis
      using show_nat_nonempty [of "n div 10"] by simp
  qed
qed

lemma int_digits_show_nat: "int_digits (show_nat n)"
proof (cases "n = 0")
  case True
  then show ?thesis
    by (subst show_nat.simps) (simp add: int_digits_def digit_char_def is_digit_def)
next
  case False
  then show ?thesis
    using show_nat_hd [of n] by (simp add: int_digits_def show_nat_digits show_nat_nonempty)
qed

lemma delimited_not_digit: "delimited r \<Longrightarrow> r = [] \<or> \<not> is_digit (hd r)"
  by (auto simp: delimited_def is_digit_def)

lemma span_digits:
  "list_all is_digit ds \<Longrightarrow> r = [] \<or> \<not> is_digit (hd r) \<Longrightarrow>
     takeWhile is_digit (ds @ r) = ds \<and> dropWhile is_digit (ds @ r) = r"
proof (induction ds)
  case Nil
  then show ?case by (cases r) auto
next
  case (Cons d ds)
  then show ?case by simp
qed

lemma starts_Cons: "starts [c] (d # s) \<longleftrightarrow> c = d"
  by (auto simp: starts_def)

lemma starts_Nil: "\<not> starts [c] []"
  by (simp add: starts_def)

lemma not_digit_chars:
  "\<not> is_digit (CHR ''.'')" "\<not> is_digit (CHR ''e'')" "\<not> is_digit (CHR ''-'')"
  "\<not> is_digit (CHR ''+'')" "is_digit (CHR ''0'')"
  by (simp_all add: is_digit_def)

lemma delimited_starts:
  assumes "delimited r"
  shows "\<not> starts ''.'' r" "\<not> starts ''e'' r" "\<not> starts ''E'' r" "r = [] \<or> \<not> is_digit (hd r)"
  using assms by (cases r; auto simp: delimited_def starts_Cons starts_Nil is_digit_def)+

lemma scan_int_digits:
  assumes "int_digits ds" "r = [] \<or> \<not> is_digit (hd r)"
  shows "scan_int (ds @ r) = Some (ds, r)"
proof -
  from assms(1) obtain d ds' where ds: "ds = d # ds'" and dig: "list_all is_digit ds"
    and z: "d = CHR ''0'' \<longrightarrow> ds' = []"
    by (cases ds) (auto simp: int_digits_def)
  show ?thesis
  proof (cases "d = CHR ''0''")
    case True
    with z ds show ?thesis
      by (simp add: scan_int_def starts_Cons)
  next
    case False
    from dig ds have "is_digit d" by simp
    with False ds span_digits [OF dig assms(2)] show ?thesis
      by (simp add: scan_int_def starts_Cons)
  qed
qed

lemma scan_frac_some:
  assumes "fs \<noteq> []" "list_all is_digit fs" "r = [] \<or> \<not> is_digit (hd r)"
  shows "scan_frac (CHR ''.'' # fs @ r) = (fs, r)"
proof -
  from assms(1,2) obtain f fs' where "fs = f # fs'" "is_digit f"
    by (cases fs) auto
  with span_digits [OF assms(2,3)] show ?thesis
    by (simp add: scan_frac_def starts_Cons)
qed

lemma scan_frac_none: "\<not> starts ''.'' s \<Longrightarrow> scan_frac s = ([], s)"
  by (simp add: scan_frac_def)

lemma scan_exp_some:
  assumes "sg = CHR ''+'' \<or> sg = CHR ''-''" "ds \<noteq> []" "list_all is_digit ds"
    "r = [] \<or> \<not> is_digit (hd r)"
  shows "\<exists>x. scan_exp (CHR ''e'' # sg # ds @ r) = (Some x, r)"
proof -
  from assms(2,3) obtain d ds' where "ds = d # ds'" "is_digit d"
    by (cases ds) auto
  with span_digits [OF assms(3,4)] assms(1) show ?thesis
    by (auto simp: scan_exp_def starts_Cons Let_def)
qed

lemma scan_exp_none: "\<not> starts ''e'' s \<Longrightarrow> \<not> starts ''E'' s \<Longrightarrow> scan_exp s = (None, s)"
  by (simp add: scan_exp_def)

lemma scan_number_unsigned:
  assumes ds: "int_digits ds" and fs: "list_all is_digit fs" and x: "exp_text x"
    and r: "delimited r"
  shows "\<exists>m e. scan_number ((if neg then ''-'' else []) @ ds
              @ (if fs = [] then [] else CHR ''.'' # fs) @ x @ r)
           = Some (if fs = [] \<and> x = [] then PyInt ((if neg then - 1 else 1) * int (read_nat ds))
                   else PyFloat (Fin neg m e), r)"
proof -
  let ?tail = "(if fs = [] then [] else CHR ''.'' # fs) @ x @ r"
  from ds obtain d ds' where dd: "ds = d # ds'" "is_digit d"
    by (cases ds) (auto simp: int_digits_def)
  have dneg: "d \<noteq> CHR ''-''"
    using dd not_digit_chars by auto
  from x consider (noexp) "x = []" | (exp) sg es where "x = CHR ''e'' # sg # es"
    "sg = CHR ''+'' \<or> sg = CHR ''-''" "es \<noteq> []" "list_all is_digit es"
    by (auto simp: exp_text_def)
  then have tail_ok: "?tail = [] \<or> \<not> is_digit (hd ?tail)"
    using delimited_starts(4) [OF r] not_digit_chars by cases auto
  have si: "scan_int (ds @ ?tail) = Some (ds, ?tail)"
    using ds tail_ok by (rule scan_int_digits)
  from x consider (noexp) "x = []" | (exp) sg es where "x = CHR ''e'' # sg # es"
    "sg = CHR ''+'' \<or> sg = CHR ''-''" "es \<noteq> []" "list_all is_digit es"
    by (auto simp: exp_text_def)
  then have xr: "x @ r = [] \<or> \<not> is_digit (hd (x @ r))"
    using delimited_starts(4) [OF r] not_digit_chars by cases auto
  have sf: "scan_frac ?tail = (fs, x @ r)"
  proof (cases "fs = []")
    case True
    from x have "\<not> starts ''.'' (x @ r)"
      using delimited_starts(1) [OF r] by (auto simp: exp_text_def starts_Cons)
    with True show ?thesis by (simp add: scan_frac_none)
  next
    case False
    with scan_frac_some [OF False fs xr] show ?thesis by simp
  qed
  from x consider (noexp) "x = []" | (exp) sg es where "x = CHR ''e'' # sg # es"
    "sg = CHR ''+'' \<or> sg = CHR ''-''" "es \<noteq> []" "list_all is_digit es"
    by (auto simp: exp_text_def)
  then show ?thesis
  proof cases
    case noexp
    then have se: "scan_exp (x @ r) = (None, r)"
      using delimited_starts(2,3) [OF r] by (simp add: scan_exp_none)
    show ?thesis
      using si sf se noexp dd dneg
      by (cases neg; cases "fs = []";
          auto simp: scan_number_def Let_def starts_Cons split: prod.splits)
  next
    case exp
    then obtain v where se: "scan_exp (x @ r) = (Some v, r)"
      using scan_exp_some [OF exp(2,3,4) delimited_starts(4) [OF r]] by auto
    show ?thesis
      using si sf se exp(1) dd dneg
      by (cases neg; cases "fs = []";
          auto simp: scan_number_def Let_def starts_Cons split: prod.splits)
  qed
qed

lemma scan_number_text:
  "int_digits ds \<Longrightarrow> list_all is_digit fs \<Longrightarrow> exp_text x \<Longrightarrow> delimited r \<Longrightarrow>
     \<exists>v. scan_number (number_text neg ds fs x @ r) = Some (v, r)"
  using scan_number_unsigned [of ds fs x r neg]
  by (auto simp: number_text_def)

lemma list_all_replicate_zero: "list_all is_digit (replicate k (CHR ''0''))"
  by (induction k) (simp_all add: not_digit_chars)

lemma list_all_take_drop:
  "list_all P xs \<Longrightarrow> list_all P (take k xs) \<and> list_all P (drop k xs)"
  by (simp add: list_all_iff) (meson in_set_dropD in_set_takeD)

lemma show_int_text: "\<exists>neg ds. show_int i = number_text neg ds [] [] \<and> int_digits ds"
proof (cases "i < 0")
  case True
  then have "show_int i = number_text True (show_nat (nat (- i))) [] []"
    by (simp add: show_int_def number_text_def)
  then show ?thesis using int_digits_show_nat by auto
next
  case False
  then have "show_int i = number_text False (show_nat (nat i)) [] []"
    by (simp add: show_int_def number_text_def)
  then show ?thesis using int_digits_show_nat by auto
qed

lemma fixed_repr_text:
  assumes "0 < m"
  shows "\<exists>ds fs. fixed_repr (show_nat m) p = number_text False ds fs []
            \<and> int_digits ds \<and> list_all is_digit fs"
proof -
  let ?ds = "show_nat m"
  have ne: "?ds \<noteq> []" and dig: "list_all is_digit ?ds" and hd0: "hd ?ds \<noteq> CHR ''0''"
    using assms by (simp_all add: show_nat_nonempty show_nat_digits show_nat_hd)
  consider (small) "p \<le> 0" | (mid) "0 < p" "p < int (length ?ds)" | (large) "int (length ?ds) \<le> p"
    by linarith
  then show ?thesis
  proof cases
    case small
    have "fixed_repr ?ds p = number_text False ''0'' (replicate (nat (- p)) CHR ''0'' @ ?ds) []"
      using small ne by (simp add: fixed_repr_def number_text_def)
    moreover have "int_digits ''0''"
      by (simp add: int_digits_def not_digit_chars)
    moreover have "list_all is_digit (replicate (nat (- p)) CHR ''0'' @ ?ds)"
      using dig by (simp add: list_all_replicate_zero)
    ultimately show ?thesis by fastforce
  next
    case mid
    have d: "drop (nat p) ?ds \<noteq> []" and t: "take (nat p) ?ds \<noteq> []"
      using mid ne by auto
    have "fixed_repr ?ds p = number_text False (take (nat p) ?ds) (drop (nat p) ?ds) []"
      using mid d by (simp add: fixed_repr_def number_text_def)
    moreover have "hd (take (nat p) ?ds) = hd ?ds"
      using mid by (cases ?ds; cases "nat p") auto
    then have "int_digits (take (nat p) ?ds)"
      using t hd0 list_all_take_drop [OF dig] by (simp add: int_digits_def)
    moreover have "list_all is_digit (drop (nat p) ?ds)"
      using list_all_take_drop [OF dig] by simp
    ultimately show ?thesis by fastforce
  next
    case large
    have "0 < p"
      using large ne by (cases ?ds) auto
    then have "fixed_repr ?ds p =
            number_text False (?ds @ replicate (nat p - length ?ds) CHR ''0'') ''0'' []"
      using large by (simp add: fixed_repr_def number_text_def)
    moreover have "int_digits (?ds @ replicate (nat p - length ?ds) CHR ''0'')"
      using ne hd0 dig by (simp add: int_digits_def list_all_replicate_zero)
    moreover have "list_all is_digit ''0''"
      by (simp add: not_digit_chars)
    ultimately show ?thesis by fastforce
  qed
qed

lemma sci_repr_text:
  assumes "0 < m"
  shows "\<exists>ds fs x. sci_repr (show_nat m) k = number_text False ds fs x
            \<and> int_digits ds \<and> list_all is_digit fs \<and> exp_text x"
proof -
  let ?ds = "show_nat m"
  let ?es = "(if \<bar>k\<bar> < 10 then ''0'' else []) @ show_nat (nat \<bar>k\<bar>)"
  let ?x = "CHR ''e'' # (if k < 0 then CHR ''-'' else CHR ''+'') # ?es"
  have ne: "?ds \<noteq> []" and dig: "list_all is_digit ?ds" and hd0: "hd ?ds \<noteq> CHR ''0''"
    using assms by (simp_all add: show_nat_nonempty show_nat_digits show_nat_hd)
  have "sci_repr ?ds k = number_text False (take 1 ?ds) (drop 1 ?ds) ?x"
    using ne by (cases ?ds) (auto simp: sci_repr_def number_text_def)
  moreover have "int_digits (take 1 ?ds)"
    using ne hd0 dig by (cases ?ds) (auto simp: int_digits_def)
  moreover have "list_all is_digit (drop 1 ?ds)"
    using list_all_take_drop [OF dig] by simp
  moreover have "list_all is_digit ?es" "?es \<noteq> []"
    by (simp_all add: show_nat_digits show_nat_nonempty not_digit_chars)
  then have "exp_text ?x"
    unfolding exp_text_def by (intro disjI2 exI [of _ "if k < 0 then CHR ''-'' else CHR ''+''"] exI [of _ ?es]) simp
  ultimately show ?thesis by fastforce
qed

lemma strip_zeros_positive: "strip_zeros m e = (m', e') \<Longrightarrow> m' \<noteq> 0 \<Longrightarrow> 0 < m'"
  by simp

lemma negate_text: "(if s then ''-'' else []) @ number_text False ds fs x = number_text s ds fs x"
  by (simp add: number_text_def)

lemma finite_repr_text:
  "\<exists>neg ds fs x. finite_repr s m e = number_text neg ds fs x
      \<and> int_digits ds \<and> list_all is_digit fs \<and> exp_text x"
proof -
  obtain m' e' where sz: "strip_zeros m e = (m', e')"
    by (cases "strip_zeros m e")
  show ?thesis
  proof (cases "m' = 0")
    case True
    then have "finite_repr s m e = number_text s ''0'' ''0'' []"
      using sz by (simp add: finite_repr_def number_text_def)
    moreover have "int_digits ''0''" "list_all is_digit ''0''" "exp_text []"
      by (simp_all add: int_digits_def not_digit_chars exp_text_def)
    ultimately show ?thesis by fastforce
  next
    case False
    then have pos: "0 < m'" by simp
    let ?p = "int (length (show_nat m')) + e'"
    show ?thesis
    proof (cases "- 4 \<le> ?p - 1 \<and> ?p - 1 < 16")
      case True
      obtain ds fs where "fixed_repr (show_nat m') ?p = number_text False ds fs []"
        "int_digits ds" "list_all is_digit fs"
        using fixed_repr_text [OF pos] by blast
      moreover have "finite_repr s m e = (if s then ''-'' else []) @ fixed_repr (show_nat m') ?p"
        using sz False True by (simp add: finite_repr_def Let_def)
      moreover have "exp_text []" by (simp add: exp_text_def)
      ultimately show ?thesis
        using negate_text by metis
    next
      case nf: False
      obtain ds fs x where "sci_repr (show_nat m') (?p - 1) = number_text False ds fs x"
        "int_digits ds" "list_all is_digit fs" "exp_text x"
        using sci_repr_text [OF pos] by blast
      moreover have "finite_repr s m e = (if s then ''-'' else []) @ sci_repr (show_nat m') (?p - 1)"
        using sz False nf by (auto simp: finite_repr_def Let_def)
      ultimately show ?thesis
        using negate_text by metis
    qed
  qed
qed

subsection \<open>The decoder accepts what the encoder writes: values\<close>

lemma starts_simps [simp]:
  "starts [] s" "\<not> starts (p # ps) []"
  "starts (p # ps) (c # cs) \<longleftrightarrow> p = c \<and> starts ps cs"
  by (auto simp: starts_def)

lemma skip_ws_Cons: "\<not> is_ws c \<Longrightarrow> skip_ws (c # s) = c # s"
  by (simp add: skip_ws_def)

lemma skip_ws_space: "skip_ws (CHR '' '' # s) = skip_ws s"
  by (simp add: skip_ws_def is_ws_def)

lemma skip_ws_Nil: "skip_ws [] = []"
  by (simp add: skip_ws_def)

lemma digit_not_special:
  assumes "c = CHR ''-'' \<or> is_digit c"
  shows "c \<noteq> CHR 0x22" "c \<noteq> CHR ''{''" "c \<noteq> CHR ''[''" "c \<noteq> CHR ''n''" "c \<noteq> CHR ''t''"
    "c \<noteq> CHR ''f''" "\<not> is_ws c" "c \<noteq> CHR '']''"
  using assms by (auto simp: is_digit_def is_ws_def)

lemma number_text_hd:
  assumes "int_digits ds"
  shows "\<exists>c cs. number_text neg ds fs x = c # cs \<and> (c = CHR ''-'' \<or> is_digit c)"
proof -
  from assms obtain d ds' where "ds = d # ds'" "is_digit d"
    by (cases ds) (auto simp: int_digits_def)
  then show ?thesis
    by (cases neg) (simp_all add: number_text_def)
qed

lemma dump_num_text:
  "(\<exists>neg ds fs x. dump_num v = number_text neg ds fs x
       \<and> int_digits ds \<and> list_all is_digit fs \<and> exp_text x)
   \<or> v = PyFloat NaN \<or> v = PyFloat (Inf False) \<or> v = PyFloat (Inf True)"
proof (cases v)
  case (PyInt i)
  obtain neg ds where "show_int i = number_text neg ds [] []" "int_digits ds"
    using show_int_text by blast
  moreover have "list_all is_digit []" "exp_text []"
    by (simp_all add: exp_text_def)
  ultimately show ?thesis
    using PyInt by fastforce
next
  case (PyFloat f)
  show ?thesis
  proof (cases f)
    case (Fin s m e)
    with PyFloat finite_repr_text [of s m e] show ?thesis by simp
  next
    case (Inf s)
    with PyFloat show ?thesis by (cases s) simp_all
  next
    case NaN
    with PyFloat show ?thesis by simp
  qed
qed

lemma parse_number_text:
  assumes "int_digits ds" "list_all is_digit fs" "exp_text x" "delimited r"
  shows "\<exists>v. parse_value (Suc n) (number_text neg ds fs x @ r) = Some (v, r)"
    and "\<exists>c cs. number_text neg ds fs x = c # cs \<and> \<not> is_ws c \<and> c \<noteq> CHR '']''"
proof -
  obtain c cs where t: "number_text neg ds fs x = c # cs" and c: "c = CHR ''-'' \<or> is_digit c"
    using number_text_hd [OF assms(1)] by blast
  obtain v where "scan_number (number_text neg ds fs x @ r) = Some (v, r)"
    using scan_number_text [OF assms] by blast
  then have "scan_number (c # cs @ r) = Some (v, r)"
    using t by simp
  then have "parse_value (Suc n) (c # cs @ r) = Some (JNum v, r)"
    using digit_not_special [OF c] by simp
  then show "\<exists>v. parse_value (Suc n) (number_text neg ds fs x @ r) = Some (v, r)"
    using t by simp
  show "\<exists>c cs. number_text neg ds fs x = c # cs \<and> \<not> is_ws c \<and> c \<noteq> CHR '']''"
    using t digit_not_special(7,8) [OF c] by simp
qed

lemma parse_special_floats:
  "parse_value (Suc n) (''NaN'' @ r) = Some (JNum (PyFloat NaN), r)"
  "parse_value (Suc n) (''Infinity'' @ r) = Some (JNum (PyFloat (Inf False)), r)"
  "parse_value (Suc n) (''-Infinity'' @ r) = Some (JNum (PyFloat (Inf True)), r)"
  by (simp_all add: scan_number_def scan_int_def is_digit_def)

lemma parse_dump_num:
  assumes "delimited r"
  shows "\<exists>v'. parse_value (Suc n) (dump_num v @ r) = Some (v', r)"
    and "\<exists>c cs. dump_num v = c # cs \<and> \<not> is_ws c \<and> c \<noteq> CHR '']''"
proof -
  consider (tok) neg ds fs x where "dump_num v = number_text neg ds fs x"
      "int_digits ds" "list_all is_digit fs" "exp_text x"
    | (nan) "v = PyFloat NaN" | (inf) "v = PyFloat (Inf False)" | (ninf) "v = PyFloat (Inf True)"
    using dump_num_text [of v] by blast
  then show "\<exists>v'. parse_value (Suc n) (dump_num v @ r) = Some (v', r)"
  proof cases
    case tok
    with parse_number_text(1) [OF tok(2,3,4) assms, of n neg] show ?thesis by simp
  next
    case nan
    then show ?thesis using parse_special_floats(1) [of n r] by simp
  next
    case inf
    then show ?thesis using parse_special_floats(2) [of n r] by simp
  next
    case ninf
    then show ?thesis using parse_special_floats(3) [of n r] by simp
  qed
  consider (tok) neg ds fs x where "dump_num v = number_text neg ds fs x"
      "int_digits ds" "list_all is_digit fs" "exp_text x"
    | (nan) "v = PyFloat NaN" | (inf) "v = PyFloat (Inf False)" | (ninf) "v = PyFloat (Inf True)"
    using dump_num_text [of v] by blast
  then show "\<exists>c cs. dump_num v = c # cs \<and> \<not> is_ws c \<and> c \<noteq> CHR '']''"
  proof cases
    case tok
    with parse_number_text(2) [OF tok(2,3,4) assms, of neg] show ?thesis by simp
  qed (simp_all add: is_ws_def)
qed

lemma dump_string_Cons: "dump_string s = CHR 0x22 # tl (dump_string s)"
  by (simp add: dump_string_def)

lemma json_dumps_hd: "\<exists>c cs. json_dumps v = c # cs \<and> \<not> is_ws c \<and> c \<noteq> CHR '']''"
proof (cases v)
  case (JNum x)
  have "delimited []" by (simp add: delimited_def)
  from parse_dump_num(2) [OF this, of x] JNum show ?thesis by simp
next
  case (JStr s)
  then show ?thesis
    by (simp add: dump_string_def is_ws_def)
qed (simp_all add: is_ws_def)

lemma skip_ws_dumps: "skip_ws (json_dumps v @ r) = json_dumps v @ r"
  using json_dumps_hd [of v] by (auto simp: skip_ws_Cons)

lemma skip_ws_dump_string: "skip_ws (dump_string s @ r) = dump_string s @ r"
  by (simp add: dump_string_def skip_ws_Cons is_ws_def)

lemma json_dumps_nonempty: "0 < length (json_dumps v)"
  using json_dumps_hd [of v] by auto

lemma delimited_simps:
  "delimited []" "delimited (CHR '','' # s)" "delimited (CHR '']'' # s)" "delimited (CHR ''}'' # s)"
  by (simp_all add: delimited_def)

lemma parse_string_value:
  "\<exists>v'. parse_value (Suc n) (dump_string s @ r) = Some (v', r)"
proof -
  obtain s' where "scan_string None [] (tl (dump_string s) @ r) = Some (s', r)"
    using scan_dump_string by blast
  then have "parse_value (Suc n) (CHR 0x22 # tl (dump_string s) @ r) = Some (JStr s', r)"
    by simp
  then show ?thesis
    using dump_string_Cons [of s] by (metis append_Cons)
qed

lemma parse_elems_dumps:
  assumes IH: "\<And>v n r. v \<in> set vs \<Longrightarrow> length (json_dumps v) \<le> n \<Longrightarrow> delimited r \<Longrightarrow>
                 \<exists>v'. parse_value n (json_dumps v @ r) = Some (v', r)"
  shows "vs \<noteq> [] \<Longrightarrow> length (intercalate '', '' (map json_dumps vs)) < n \<Longrightarrow>
           \<exists>res. parse_elems n acc (intercalate '', '' (map json_dumps vs) @ CHR '']'' # rest)
                    = Some (res, rest)"
  using IH
proof (induction vs arbitrary: n acc)
  case Nil
  then show ?case by simp
next
  case (Cons v vs)
  from Cons.prems(2) obtain n' where n: "n = Suc n'"
    by (cases n) auto
  show ?case
  proof (cases vs)
    case Nil
    from Cons.prems(2) n Nil have "length (json_dumps v) \<le> n'" by simp
    then obtain v' where
      "parse_value n' (json_dumps v @ CHR '']'' # rest) = Some (v', CHR '']'' # rest)"
      using Cons.prems(3) [of v n' "CHR '']'' # rest"] by (auto simp: delimited_simps)
    then show ?thesis
      using n Nil by (simp add: skip_ws_Cons is_ws_def)
  next
    case (Cons w ws)
    let ?T = "intercalate '', '' (map json_dumps (w # ws)) @ CHR '']'' # rest"
    obtain c cs where T: "intercalate '', '' (map json_dumps (w # ws)) = c # cs" "\<not> is_ws c"
      using json_dumps_hd [of w] by (cases ws) auto
    from Cons.prems(2) n Cons have len: "length (json_dumps v) \<le> n'"
      "length (intercalate '', '' (map json_dumps (w # ws))) < n'"
      by simp_all
    obtain v' where
      "parse_value n' (json_dumps v @ CHR '','' # CHR '' '' # ?T) = Some (v', CHR '','' # CHR '' '' # ?T)"
      using Cons.prems(3) [of v n' "CHR '','' # CHR '' '' # ?T"] len(1)
      by (auto simp: delimited_simps)
    moreover obtain res where "parse_elems n' (acc @ [v']) ?T = Some (res, rest)"
      using Cons.IH [of n' "acc @ [v']"] Cons.prems(3) len(2) Cons by auto
    moreover have "skip_ws ?T = ?T"
      using T by (simp add: skip_ws_Cons)
    ultimately show ?thesis
      using n Cons by (simp add: skip_ws_Cons skip_ws_space is_ws_def)
  qed
qed

lemma parse_members_dumps:
  assumes IH: "\<And>kv n r. kv \<in> set kvs \<Longrightarrow> length (json_dumps (snd kv)) \<le> n \<Longrightarrow> delimited r \<Longrightarrow>
                 \<exists>v'. parse_value n (json_dumps (snd kv) @ r) = Some (v', r)"
  shows "kvs \<noteq> [] \<Longrightarrow>
         length (intercalate '', ''
                   (map (\<lambda>kv. dump_string (fst kv) @ '': '' @ json_dumps (snd kv)) kvs)) < n \<Longrightarrow>
           \<exists>res. parse_members n acc
                    (intercalate '', ''
                       (map (\<lambda>kv. dump_string (fst kv) @ '': '' @ json_dumps (snd kv)) kvs)
                     @ CHR ''}'' # rest)
                    = Some (res, rest)"
  using IH
proof (induction kvs arbitrary: n acc)
  case Nil
  then show ?case by simp
next
  case (Cons kv kvs)
  let ?f = "\<lambda>kv. dump_string (fst kv) @ '': '' @ json_dumps (snd kv)"
  from Cons.prems(2) obtain n' where n: "n = Suc n'"
    by (cases n) auto
  have key: "dump_string (fst kv) = CHR 0x22 # tl (dump_string (fst kv))"
    by (rule dump_string_Cons)
  show ?case
  proof (cases kvs)
    case Nil
    let ?R = "CHR '':'' # CHR '' '' # json_dumps (snd kv) @ CHR ''}'' # rest"
    obtain k' where k: "scan_string None [] (tl (dump_string (fst kv)) @ ?R) = Some (k', ?R)"
      using scan_dump_string by blast
    from Cons.prems(2) n Nil have "length (json_dumps (snd kv)) \<le> n'" by simp
    then obtain v' where v:
      "parse_value n' (json_dumps (snd kv) @ CHR ''}'' # rest) = Some (v', CHR ''}'' # rest)"
      using Cons.prems(3) [of kv n' "CHR ''}'' # rest"] by (auto simp: delimited_simps)
    have "parse_members (Suc n') acc (CHR 0x22 # tl (dump_string (fst kv)) @ ?R)
            = Some (JObj (dict_set acc k' v'), rest)"
      using k v by (simp add: skip_ws_Cons skip_ws_space skip_ws_dumps is_ws_def)
    then have "parse_members (Suc n') acc (dump_string (fst kv) @ ?R)
            = Some (JObj (dict_set acc k' v'), rest)"
      using key by (metis append_Cons)
    then show ?thesis
      using n Nil by simp
  next
    case (Cons kw kws)
    let ?T = "intercalate '', '' (map ?f (kw # kws)) @ CHR ''}'' # rest"
    let ?R = "CHR '':'' # CHR '' '' # json_dumps (snd kv) @ CHR '','' # CHR '' '' # ?T"
    obtain cs where T: "intercalate '', '' (map ?f (kw # kws)) = CHR 0x22 # cs"
      using dump_string_Cons [of "fst kw"] by (cases kws) (auto simp: dump_string_def)
    obtain k' where k: "scan_string None [] (tl (dump_string (fst kv)) @ ?R) = Some (k', ?R)"
      using scan_dump_string by blast
    from Cons.prems(2) n Cons have len: "length (json_dumps (snd kv)) \<le> n'"
      "length (intercalate '', '' (map ?f (kw # kws))) < n'"
      by simp_all
    obtain v' where v:
      "parse_value n' (json_dumps (snd kv) @ CHR '','' # CHR '' '' # ?T)
         = Some (v', CHR '','' # CHR '' '' # ?T)"
      using Cons.prems(3) [of kv n' "CHR '','' # CHR '' '' # ?T"] len(1)
      by (auto simp: delimited_simps)
    obtain res where m: "parse_members n' (dict_set acc k' v') ?T = Some (res, rest)"
      using Cons.IH [of n' "dict_set acc k' v'"] Cons.prems(3) len(2) Cons by auto
    have sk: "skip_ws ?T = ?T"
      using T by (simp add: skip_ws_Cons is_ws_def)
    have "parse_members (Suc n') acc (CHR 0x22 # tl (dump_string (fst kv)) @ ?R) = Some (res, rest)"
      using k v m sk by (simp add: skip_ws_Cons skip_ws_space skip_ws_dumps is_ws_def)
    then have "parse_members (Suc n') acc (dump_string (fst kv) @ ?R) = Some (res, rest)"
      using key by (metis append_Cons)
    then show ?thesis
      using n Cons by simp
  qed
qed

lemma parse_value_dumps:
  "length (json_dumps v) \<le> n \<Longrightarrow> delimited r \<Longrightarrow>
     \<exists>v'. parse_value n (json_dumps v @ r) = Some (v', r)"
proof (induction v arbitrary: n r)
  case JNull
  then obtain n' where "n = Suc n'" by (cases n) auto
  then show ?case by simp
next
  case (JBool b)
  then obtain n' where "n = Suc n'"
    using json_dumps_nonempty [of "JBool b"] by (cases n) auto
  then show ?case by (cases b) simp_all
next
  case (JNum x)
  then obtain n' where "n = Suc n'"
    using json_dumps_nonempty [of "JNum x"] by (cases n) auto
  then show ?case
    using parse_dump_num(1) [OF JNum.prems(2), of n' x] by simp
next
  case (JStr s)
  then obtain n' where "n = Suc n'"
    using json_dumps_nonempty [of "JStr s"] by (cases n) auto
  then show ?case
    using parse_string_value [of n' s r] by simp
next
  case (JArr vs)
  from JArr.prems(1) obtain n' where n: "n = Suc n'" by (cases n) auto
  show ?case
  proof (cases "vs = []")
    case True
    then show ?thesis using n by (simp add: skip_ws_Cons is_ws_def)
  next
    case False
    let ?T = "intercalate '', '' (map json_dumps vs) @ CHR '']'' # r"
    obtain c cs where T: "intercalate '', '' (map json_dumps vs) = c # cs" "\<not> is_ws c"
      "c \<noteq> CHR '']''"
      using json_dumps_hd [of "hd vs"] False by (cases vs; cases "tl vs") auto
    from JArr.prems(1) n have "length (intercalate '', '' (map json_dumps vs)) < n'"
      by simp
    then obtain res where "parse_elems n' [] ?T = Some (res, r)"
      using parse_elems_dumps [of vs n' "[]" r] JArr.IH False by blast
    moreover have "skip_ws ?T = ?T"
      using T by (simp add: skip_ws_Cons)
    ultimately show ?thesis
      using n T by (auto simp: skip_ws_Cons is_ws_def)
  qed
next
  case (JObj kvs)
  let ?f = "\<lambda>kv. dump_string (fst kv) @ '': '' @ json_dumps (snd kv)"
  from JObj.prems(1) obtain n' where n: "n = Suc n'" by (cases n) auto
  show ?case
  proof (cases "kvs = []")
    case True
    then show ?thesis using n by (simp add: skip_ws_Cons is_ws_def)
  next
    case False
    let ?T = "intercalate '', '' (map ?f kvs) @ CHR ''}'' # r"
    obtain cs where T: "intercalate '', '' (map ?f kvs) = CHR 0x22 # cs"
      using False by (cases kvs; cases "tl kvs") (auto simp: dump_string_def)
    have IH': "\<exists>v'. parse_value m (json_dumps (snd kv) @ q) = Some (v', q)"
      if "kv \<in> set kvs" "length (json_dumps (snd kv)) \<le> m" "delimited q" for kv m q
      using JObj.IH [of kv "snd kv" m q] that by (cases kv) auto
    from JObj.prems(1) n have "length (intercalate '', '' (map ?f kvs)) < n'"
      by simp
    then obtain res where "parse_members n' [] ?T = Some (res, r)"
      using parse_members_dumps [of kvs n' "[]" r] IH' False by blast
    moreover have "skip_ws ?T = ?T"
      using T by (simp add: skip_ws_Cons is_ws_def)
    ultimately show ?thesis
      using n T by (simp add: skip_ws_Cons is_ws_def)
  qed
qed

lemma parse_members_object:
  "parse_members n acc s = Some (v, r) \<Longrightarrow> \<exists>kvs. v = JObj kvs"
  by (induction n arbitrary: acc s)
     (auto split: if_splits option.splits prod.splits)

lemma parse_value_object:
  "parse_value n (CHR ''{'' # s) = Some (v, r) \<Longrightarrow> \<exists>kvs. v = JObj kvs"
  by (cases n) (auto split: if_splits dest: parse_members_object)

lemma loads_dumps_object: "is_json_object (json_dumps (JObj kvs))"
proof -
  let ?s = "json_dumps (JObj kvs)"
  obtain v' where v: "parse_value (Suc (length ?s)) (?s @ []) = Some (v', [])"
    using parse_value_dumps [of "JObj kvs" "Suc (length ?s)" "[]"] by (auto simp: delimited_simps)
  obtain t where t: "?s = CHR ''{'' # t"
    by simp
  have "parse_value (Suc (length ?s)) (CHR ''{'' # t) = Some (v', [])"
    using v unfolding t by simp
  then obtain kvs' where "v' = JObj kvs'"
    using parse_value_object by blast
  moreover have "skip_ws ?s = ?s"
    using skip_ws_dumps [of "JObj kvs" "[]"] by simp
  moreover have "parse_value (Suc (length ?s)) ?s = Some (v', [])"
    using v by simp
  ultimately show ?thesis
    unfolding is_json_object_def json_loads_def by (simp add: skip_ws_Nil)
qed

subsection \<open>Every executor result is a JSON object\<close>

lemma weather_dict_object: "weather_dict location payload = Inr v \<Longrightarrow> \<exists>kvs. v = JObj kvs"
  by (auto simp: weather_dict_def split: sum.splits)

lemma fetch_weather_object:
  assumes "fst (fetch_weather w location api_key) = Inr s"
  shows "is_json_object s"
proof -
  let ?params = "[(''q'', location), (''units'', JStr ''metric''), (''appid'', JStr api_key)]"
  let ?got = "and_then (requests_get w (openweather_url, ?params))
                 (\<lambda>response. and_then (raise_for_status response) (\<lambda>_. Inr response))"
  have "\<exists>kvs. s = json_dumps (JObj kvs)"
  proof (cases ?got)
    case (Inl e)
    with assms show ?thesis
      by (cases e) (auto simp: fetch_weather_def simp del: json_dumps.simps)
  next
    case (Inr response)
    with assms obtain payload weather where
      "weather_dict location payload = Inr weather" "s = json_dumps weather"
      by (auto simp: fetch_weather_def and_then_Inr simp del: json_dumps.simps)
    then show ?thesis
      using weather_dict_object by blast
  qed
  then show ?thesis
    using loads_dumps_object by blast
qed

lemma groq_weather_object:
  "fst (groq_get_current_weather w location) = Inr s \<Longrightarrow> is_json_object s"
  using fetch_weather_object
  by (auto simp: groq_get_current_weather_def split: sum.splits)

lemma mcp_weather_object:
  "fst (mcp_get_current_weather w location) = Inr s \<Longrightarrow> is_json_object s"
  using fetch_weather_object loads_dumps_object
  by (auto simp: mcp_get_current_weather_def demo_payload_def split: option.splits if_splits
        simp del: json_dumps.simps)

lemma stock_price_object:
  "get_current_stock_price w symbol = Inr s \<Longrightarrow> is_json_object s"
  using loads_dumps_object
  by (auto simp: get_current_stock_price_def Let_def and_then_Inr split: sum.splits if_splits
        simp del: json_dumps.simps)

lemma groq_loop_objects:
  "list_all (\<lambda>x. is_json_object (snd x)) (completed (execs st)) \<Longrightarrow>
     list_all (\<lambda>x. is_json_object (snd x)) (completed (execs (snd (groq_tool_loop w cs st))))"
proof (induction cs arbitrary: st)
  case Nil
  then show ?case by simp
next
  case (Cons c cs)
  have obj: "is_json_object out" if "groq_get_current_weather w location = (Inr out, g)"
    for location out g
    using groq_weather_object [of w location out] that by simp
  show ?case
    using Cons.prems obj
    by (auto simp: completed_append split: sum.splits prod.splits intro!: Cons.IH)
qed

lemma openai_loop_objects:
  "list_all (\<lambda>x. is_json_object (snd x)) (completed (execs st)) \<Longrightarrow>
     list_all (\<lambda>x. is_json_object (snd x)) (completed (execs (snd (openai_tool_loop w cs st))))"
proof (induction cs arbitrary: st)
  case Nil
  then show ?case by simp
next
  case (Cons c cs)
  show ?case
    using Cons.prems stock_price_object [of w]
    by (auto simp: completed_append split: sum.splits prod.splits intro!: Cons.IH)
qed

lemma named_contents:
  "list_all (\<lambda>m. is_json_object (tool_content m)) (map named_tool_message xs)
     = list_all (\<lambda>x. is_json_object (snd x)) xs"
  by (induction xs) (simp_all add: named_tool_message_def)

lemma groq_sent_objects:
  "list_all (\<lambda>m. is_json_object (tool_content m))
     (sent_tool_messages (groq_call_model_with_tools w q))"
proof (cases "chat_create w (groq_first_request q)")
  case (Inl e)
  then show ?thesis
    using groq_sent [of w q] by (simp add: groq_call_model_with_tools_def)
next
  case (Inr am)
  have "list_all (\<lambda>x. is_json_object (snd x))
          (completed (execs (snd (groq_tool_loop w (or_empty (tool_calls am)) (groq_start am)))))"
    by (rule groq_loop_objects) (simp add: groq_start_def)
  then show ?thesis
    using groq_sent [of w q] groq_run_shape(1) [OF Inr] by (simp add: named_contents)
qed

lemma openai_sent_objects:
  "list_all (\<lambda>m. is_json_object (tool_content m))
     (sent_tool_messages (openai_call_model_with_tools w q))"
proof (cases "chat_create w (openai_first_request q)")
  case (Inl e)
  then show ?thesis
    using openai_sent [of w q] by (simp add: openai_call_model_with_tools_def)
next
  case (Inr am)
  have "list_all (\<lambda>x. is_json_object (snd x))
          (completed (execs (snd (openai_tool_loop w (or_empty (tool_calls am)) (openai_start am)))))"
    by (rule openai_loop_objects) (simp add: openai_start_def)
  then show ?thesis
    using openai_sent [of w q] openai_run_shape(1) [OF Inr] by (simp add: named_contents)
qed

lemma mcp_sent_objects:
  "list_all (\<lambda>m. is_json_object (tool_content m))
     (sent_tool_messages (get_weather_with_groq w q))"
proof -
  have obj: "is_json_object out" if "mcp_get_current_weather w location = (Inr out, g)"
    for location out g
    using mcp_weather_object [of w location out] that by simp
  show ?thesis
    using obj
    by (auto simp: get_weather_with_groq_def sent_tool_messages_def mcp_first_request_def
          mcp_second_request_def split: sum.splits list.splits prod.splits)
qed

text \<open>
  Claim C10. Whatever the world answers, a string returned by \<open>get_current_weather\<close>
  of either weather script or by \<open>get_current_stock_price\<close> is decoded by \<open>json.loads\<close>
  to an object; so is the content of every tool-result message an orchestrator sends.
\<close>

theorem executor_results_are_objects:
  "(fst (groq_get_current_weather w v) = Inr s \<longrightarrow> is_json_object s)
   \<and> (fst (mcp_get_current_weather w v) = Inr s \<longrightarrow> is_json_object s)
   \<and> (get_current_stock_price w v = Inr s \<longrightarrow> is_json_object s)
   \<and> list_all (\<lambda>m. is_json_object (tool_content m))
        (sent_tool_messages (groq_call_model_with_tools w q))
   \<and> list_all (\<lambda>m. is_json_object (tool_content m))
        (sent_tool_messages (openai_call_model_with_tools w q))
   \<and> list_all (\<lambda>m. is_json_object (tool_content m))
        (sent_tool_messages (get_weather_with_groq w q))"
  using groq_weather_object mcp_weather_object stock_price_object
    groq_sent_objects openai_sent_objects mcp_sent_objects
  by blast

theorem executor_results_are_objects_witness:
  "is_json_object (json_dumps (demo_payload (JStr ''Bengaluru'')))
   \<and> is_json_object (json_dumps (JObj [(''error'', JStr ''Missing stock_symbol argument.'')]))"
  using executor_results_are_objects
          [of keyless_world "JStr ''Bengaluru''" "json_dumps (demo_payload (JStr ''Bengaluru''))"]
        executor_results_are_objects
          [of keyless_world "JStr []"
              "json_dumps (JObj [(''error'', JStr ''Missing stock_symbol argument.'')])"]
  by (simp add: keyless_world_def sample_world_def mcp_get_current_weather_def
        get_current_stock_price_def del: json_dumps.simps)

end
